theory Spec2Isabelle
  imports Main "HOL-Library.Word"
begin

section \<open>Exceptions and bytes\<close>

text \<open>
  The exceptions of \<^verbatim>\<open>api.py\<close> and \<^verbatim>\<open>objects.py\<close>, and the built-in ones
  their statements can raise. Every constructor is a subclass of Python's
  \<^verbatim>\<open>Exception\<close>, so an \<^verbatim>\<open>except Exception\<close> clause catches each of them.
  \<^verbatim>\<open>SocketTimeout\<close> is \<^verbatim>\<open>socket.timeout\<close>, \<^verbatim>\<open>StructError\<close> is \<^verbatim>\<open>struct.error\<close>.
\<close>

datatype exn =
    FishbowlError string
  | FishbowlTimeoutError string
  | FishbowlConnectionError string
  | OSError string
  | SocketTimeout
  | StructError
  | TypeError
  | AttributeError
  | ValueError
  | KeyError
  | XMLSyntaxError
  | OtherError string

type_synonym byte = "8 word"
type_synonym bytes = "byte list"

section \<open>Frame codec (\<^verbatim>\<open>Fishbowl.pack_message\<close> and the receive loop of \<^verbatim>\<open>send_message\<close>)\<close>

text \<open>
  \<^verbatim>\<open>struct.pack(">L", n)\<close>: four bytes, most significant first; \<^verbatim>\<open>struct.error\<close>
  when \<open>n\<close> does not fit in 32 bits. \<^verbatim>\<open>struct.unpack(">L", b)[0]\<close> reads them back and
  raises \<^verbatim>\<open>struct.error\<close> unless \<open>b\<close> has exactly four bytes.
\<close>

definition struct_pack_L :: "nat \<Rightarrow> exn + bytes" where
  "struct_pack_L n =
     (if n < 2 ^ 32
      then Inr [of_nat (n div 2 ^ 24), of_nat (n div 2 ^ 16), of_nat (n div 2 ^ 8), of_nat n]
      else Inl StructError)"

fun struct_unpack_L :: "bytes \<Rightarrow> exn + nat" where
  "struct_unpack_L [a, b, c, d] =
     Inr (unat a * 2 ^ 24 + unat b * 2 ^ 16 + unat c * 2 ^ 8 + unat d)"
| "struct_unpack_L _ = Inl StructError"

text \<open>
  \<^verbatim>\<open>
  def pack_message(self, msg):
      msg_length = len(msg)
      packed_length = struct.pack(">L", msg_length)
      return packed_length + msg
  \<close>
\<close>

definition pack_message :: "bytes \<Rightarrow> exn + bytes" where
  "pack_message msg =
     (let msg_length = length msg in
      case struct_pack_L msg_length of
        Inl e \<Rightarrow> Inl e
      | Inr packed_length \<Rightarrow> Inr (packed_length @ msg))"

text \<open>
  The socket, seen from the client: what the peer will deliver, in order. \<open>Data bs\<close> is
  a segment of bytes that arrives together; \<open>TimesOut\<close> is a wait that exceeds the
  socket's timeout. After the last event the peer has closed the stream.

  \<^verbatim>\<open>stream.recv(n)\<close> on a blocking socket returns at least one and at most \<open>n\<close> of the
  bytes that have arrived (a segment without bytes delivers nothing and is passed over),
  raises \<^verbatim>\<open>socket.timeout\<close> when the wait times out, and returns \<^verbatim>\<open>b''\<close> once the peer
  has closed the stream.
\<close>

datatype event = Data bytes | TimesOut

datatype recv_result = Timeout | Bytes bytes

fun recv :: "nat \<Rightarrow> event list \<Rightarrow> recv_result \<times> event list" where
  "recv n [] = (Bytes [], [])"
| "recv n (TimesOut # es) = (Timeout, es)"
| "recv n (Data bs # es) =
     (if bs = [] then recv n es
      else (Bytes (take n bs), if drop n bs = [] then es else Data (drop n bs) # es))"

text \<open>
  The header loop:
  \<^verbatim>\<open>
  packed_length = b""
  while len(packed_length) < 4:
      packed_length += self.stream.recv(4 - len(packed_length))
  \<close>
  When the peer has closed the stream before four bytes arrived, \<^verbatim>\<open>recv\<close> returns
  \<^verbatim>\<open>b''\<close> for ever and the loop does not end: the result is \<open>None\<close>.
\<close>

partial_function (option) recv_length :: "event list \<Rightarrow> bytes \<Rightarrow> (recv_result \<times> event list) option" where
  "recv_length s packed_length =
     (if length packed_length < 4
      then (case recv (4 - length packed_length) s of
              (Timeout, s') \<Rightarrow> Some (Timeout, s')
            | (Bytes bs, s') \<Rightarrow> recv_length s' (packed_length @ bs))
      else Some (Bytes packed_length, s))"

text \<open>
  What the \<^verbatim>\<open>try\<close> block of \<^verbatim>\<open>send_message\<close> ends with: the response bytes, a
  \<^verbatim>\<open>socket.timeout\<close> (with the value of \<^verbatim>\<open>received_length\<close> at that moment), or
  another exception, which the \<^verbatim>\<open>except socket.timeout\<close> clause does not catch.
\<close>

datatype outcome = Response bytes | TimedOut bool | Raised exn

text \<open>
  The payload loop:
  \<^verbatim>\<open>
  while byte_count < length:
      byte = ord(self.stream.recv(1))
      byte_count += 1
      response.append(byte)
  \<close>
  \<^verbatim>\<open>ord\<close> raises \<^verbatim>\<open>TypeError\<close> on \<^verbatim>\<open>b''\<close>, which \<^verbatim>\<open>recv\<close> returns at the end of the
  stream.
\<close>

function recv_payload :: "event list \<Rightarrow> nat \<Rightarrow> nat \<Rightarrow> bytes \<Rightarrow> outcome \<times> event list" where
  "recv_payload s len byte_count response =
     (if byte_count < len
      then (case recv 1 s of
              (Timeout, s') \<Rightarrow> (TimedOut True, s')
            | (Bytes [b], s') \<Rightarrow> recv_payload s' len (byte_count + 1) (response @ [b])
            | (Bytes _, s') \<Rightarrow> (Raised TypeError, s'))
      else (Response response, s))"
  by pat_completeness auto
termination
  by (relation "measure (\<lambda>(s, len, byte_count, response). len - byte_count)") auto

declare recv_payload.simps [simp del]

text \<open>
  The whole \<^verbatim>\<open>try\<close> block:
  \<^verbatim>\<open>
  byte_count = 0
  response = bytearray()
  received_length = False
  try:
      <header loop>
      length = struct.unpack(">L", packed_length)[0]
      received_length = True
      <payload loop>
  \<close>
\<close>

definition receive :: "event list \<Rightarrow> (outcome \<times> event list) option" where
  "receive s =
     (case recv_length s [] of
        None \<Rightarrow> None
      | Some (Timeout, s') \<Rightarrow> Some (TimedOut False, s')
      | Some (Bytes packed_length, s') \<Rightarrow>
          (case struct_unpack_L packed_length of
             Inl e \<Rightarrow> Some (Raised e, s')
           | Inr len \<Rightarrow> Some (recv_payload s' len 0 [])))"

section \<open>XML elements and the status checker (\<^verbatim>\<open>check_status\<close>)\<close>

text \<open>
  An element of an \<^verbatim>\<open>lxml\<close> tree: tag, attributes, text (\<open>None\<close> when absent) and
  children. \<^verbatim>\<open>element.get(name)\<close> reads an attribute, \<^verbatim>\<open>element.find(tag)\<close> returns
  the first child with that tag, or \<^verbatim>\<open>None\<close>.
\<close>

datatype xml = Element (xml_tag: string) (xml_attrib: "(string \<times> string) list")
  (xml_text: "string option") (xml_children: "xml list")

definition xml_get :: "xml \<Rightarrow> string \<Rightarrow> string option" where
  "xml_get element name = map_of (xml_attrib element) name"

definition xml_find :: "xml \<Rightarrow> string \<Rightarrow> xml option" where
  "xml_find element name = List.find (\<lambda>child. xml_tag child = name) (xml_children element)"

text \<open>
  \<^verbatim>\<open>
  def check_status(element, expected=statuscodes.SUCCESS, allow_none=False):
      code = element.get("statusCode")
      message = element.get("statusMessage")
      if message is None:
          message = statuscodes.get_status(code)
      if code != expected and (code is not None or not allow_none):
          raise FishbowlError(message)
      return message
  \<close>
  Modelled from the spec: the module \<^verbatim>\<open>statuscodes\<close> is not among the sources. Its
  \<^verbatim>\<open>get_status\<close>, "a code-to-text lookup", is the parameter \<open>get_status\<close>; the default
  of \<open>expected\<close>, \<^verbatim>\<open>statuscodes.SUCCESS\<close>, is left to the caller. A code and the expected
  code are strings or \<^verbatim>\<open>None\<close>.
\<close>

definition check_status ::
  "(string option \<Rightarrow> string) \<Rightarrow> xml \<Rightarrow> string option \<Rightarrow> bool \<Rightarrow> exn + string" where
  "check_status get_status element expected allow_none =
     (let code = xml_get element ''statusCode'';
          message = xml_get element ''statusMessage'';
          message = (case message of None \<Rightarrow> get_status code | Some m \<Rightarrow> m)
      in if code \<noteq> expected \<and> (code \<noteq> None \<or> \<not> allow_none)
         then Inl (FishbowlError message)
         else Inr message)"

section \<open>The connection (\<^verbatim>\<open>Fishbowl.send_message\<close> and \<^verbatim>\<open>Fishbowl.close\<close>)\<close>

text \<open>
  What the connection code takes from outside the sources:
  \<^item> Modelled from the spec: the module \<^verbatim>\<open>xmlrequests\<close> is not among the sources.
    \<open>Login u p k t\<close> is the serialized request
    \<^verbatim>\<open>xmlrequests.Login(u, p, logout=k, task_name=t).request\<close>;
  \<^item> \<open>fromstring\<close> is \<^verbatim>\<open>lxml.etree.fromstring\<close>, a library function. The response is
    decoded with latin-1 before it is parsed; that decoding maps every byte to the
    character of the same code and cannot fail, so the parser is taken on the bytes;
  \<^item> \<open>get_status\<close>, as in \<open>check_status\<close>.
\<close>

record env =
  get_status :: "string option \<Rightarrow> string"
  Login :: "string \<Rightarrow> string \<Rightarrow> string option \<Rightarrow> string option \<Rightarrow> bytes"
  fromstring :: "bytes \<Rightarrow> exn + xml"

text \<open>
  The attributes of a \<^verbatim>\<open>Fishbowl\<close> instance that \<^verbatim>\<open>send_message\<close> and \<^verbatim>\<open>close\<close>
  read and write. \<open>key\<close> is \<open>None\<close> when the attribute is \<^verbatim>\<open>None\<close> or was never set
  (\<^verbatim>\<open>getattr(self, "key", None)\<close>); \<open>username\<close> is \<open>None\<close> when the attribute was never
  set (\<^verbatim>\<open>connect\<close> sets it after a successful login only). \<open>stream\<close> is what the socket
  will deliver, \<open>stream_closed\<close> whether \<^verbatim>\<open>self.stream.close()\<close> has run, \<open>sent\<close> the
  frames handed to \<^verbatim>\<open>self.stream.send\<close>, oldest first.
\<close>

record conn =
  connected :: bool
  key :: "string option"
  username :: "string option"
  task_name :: "string option"
  stream :: "event list"
  stream_closed :: bool
  sent :: "bytes list"

text \<open>Python's truth value of a string or \<^verbatim>\<open>None\<close>.\<close>

definition truthy_str :: "string option \<Rightarrow> bool" where
  "truthy_str s = (s \<noteq> None \<and> s \<noteq> Some [])"

text \<open>
  \<^verbatim>\<open>
  @require_connected
  def send_message(self, msg):
      if isinstance(msg, xmlrequests.Request):
          msg = msg.request
      tag = "unknown"
      try:
          xml = etree.fromstring(msg)
          request_tag = xml.find("FbiMsgsRq")
          if request_tag is not None and len(request_tag):
              tag = request_tag[0].tag
      except etree.XMLSyntaxError:
          pass
      ...
      self.stream.send(self.pack_message(msg))
      <the receive block>
      except socket.timeout:
          self.close(skip_errors=True)
          if received_length:
              msg = "Connection timeout (after length received)"
          else:
              msg = "Connection timeout"
          logger.exception(msg)
          raise FishbowlTimeoutError(msg)
      response = response.decode(self.encoding)
      return etree.fromstring(response)

  def close(self, skip_errors=False):
      try:
          has_key = getattr(self, "key", None)
          if has_key:
              # Unset key first to avoid a loop if the logout request fails.
              self.key = None
              logout_xml = xmlrequests.Login(
                  self.username, "", logout=self.key, task_name=self.task_name
              ).request
              logout_response = self.send_message(logout_xml)
          if not self.connected:
              raise OSError("Not connected")
          self._connected = False
          self.stream.close()
          if has_key:
              check_status(logout_response.find("FbiMsgsRs"), expected="1010")
      except Exception:
          if not skip_errors:
              ...
              raise
  \<close>
  The message is the serialized request (a \<^verbatim>\<open>Request\<close> object stands for its
  \<^verbatim>\<open>request\<close> bytes). The first parse only computes a tag for the log; of its
  exceptions only \<^verbatim>\<open>XMLSyntaxError\<close> is caught. Sending on a socket that was closed
  raises \<^verbatim>\<open>OSError\<close>; an open socket accepts the frame. The result is \<open>None\<close> when
  the header loop does not end. \<open>close\<close> returns the exception it lets through, if any.
\<close>

function send_message :: "env \<Rightarrow> conn \<Rightarrow> bytes \<Rightarrow> ((exn + xml) \<times> conn) option"
  and close :: "env \<Rightarrow> conn \<Rightarrow> bool \<Rightarrow> (exn option \<times> conn) option" where
  "send_message E c msg =
     (if \<not> connected c then Some (Inl (OSError ''Not connected''), c)
      else case (case fromstring E msg of
                   Inl e \<Rightarrow> if e = XMLSyntaxError then None else Some e
                 | Inr _ \<Rightarrow> None) of
        Some e \<Rightarrow> Some (Inl e, c)
      | None \<Rightarrow>
         (case pack_message msg of
            Inl e \<Rightarrow> Some (Inl e, c)
          | Inr frame \<Rightarrow>
              if stream_closed c then Some (Inl (OSError ''Bad file descriptor''), c)
              else
                (case receive (stream c) of
                   None \<Rightarrow> None
                 | Some (TimedOut received_length, s') \<Rightarrow>
                     (case close E (c\<lparr>sent := sent c @ [frame], stream := s'\<rparr>) True of
                        None \<Rightarrow> None
                      | Some (_, c') \<Rightarrow>
                          Some (Inl (FishbowlTimeoutError
                                  (if received_length
                                   then ''Connection timeout (after length received)''
                                   else ''Connection timeout'')), c'))
                 | Some (Raised e, s') \<Rightarrow>
                     Some (Inl e, c\<lparr>sent := sent c @ [frame], stream := s'\<rparr>)
                 | Some (Response response, s') \<Rightarrow>
                     Some (fromstring E response,
                           c\<lparr>sent := sent c @ [frame], stream := s'\<rparr>))))"
| "close E c skip_errors =
     (let has_key = key c in
      case (if truthy_str has_key
            then (case username c of
                    None \<Rightarrow> Some (Inl AttributeError, c\<lparr>key := None\<rparr>)
                  | Some u \<Rightarrow>
                      (case send_message E (c\<lparr>key := None\<rparr>)
                              (Login E u [] (key (c\<lparr>key := None\<rparr>)) (task_name c)) of
                         None \<Rightarrow> None
                       | Some (Inl e, c') \<Rightarrow> Some (Inl e, c')
                       | Some (Inr logout_response, c') \<Rightarrow> Some (Inr (Some logout_response), c')))
            else Some (Inr None, c)) of
        None \<Rightarrow> None
      | Some (Inl e, c') \<Rightarrow> Some (if skip_errors then None else Some e, c')
      | Some (Inr logout_response, c') \<Rightarrow>
          if \<not> connected c'
          then Some (if skip_errors then None else Some (OSError ''Not connected''), c')
          else
            (case logout_response of
               None \<Rightarrow> Some (None, c'\<lparr>connected := False, stream_closed := True\<rparr>)
             | Some r \<Rightarrow>
                 (case (case xml_find r ''FbiMsgsRs'' of
                          None \<Rightarrow> Inl AttributeError
                        | Some element \<Rightarrow> check_status (get_status E) element (Some ''1010'') False) of
                    Inl e \<Rightarrow> Some (if skip_errors then None else Some e,
                                     c'\<lparr>connected := False, stream_closed := True\<rparr>)
                  | Inr _ \<Rightarrow> Some (None, c'\<lparr>connected := False, stream_closed := True\<rparr>))))"
  by pat_completeness auto
termination
  by (relation "measure (\<lambda>x. case x of
          Inl (E, c, msg) \<Rightarrow> (if truthy_str (key c) then 3 else 1)
        | Inr (E, c, skip_errors) \<Rightarrow> (if truthy_str (key c) then 2 else 0))")
     (auto simp: truthy_str_def)

declare send_message.simps [simp del] close.simps [simp del]

section \<open>Values, strings and dictionaries of \<^verbatim>\<open>objects.py\<close>\<close>

text \<open>
  The values that occur in the data handed to \<^verbatim>\<open>parse_fields\<close> and in its result:
  \<^verbatim>\<open>None\<close>, strings, integers, booleans, lists, dictionaries and resolved
  \<^verbatim>\<open>FishbowlObject\<close> instances (class name and \<^verbatim>\<open>mapped\<close>). A string is a list of
  characters with codes below 256, the range of the connection's encoding, latin-1.
  A dictionary is the list of its items in insertion order; its keys are strings.
\<close>

datatype pyval =
    VNone
  | VStr string
  | VInt int
  | VBool bool
  | VList "pyval list"
  | VDict "(string \<times> pyval) list"
  | VObj string "(string \<times> pyval) list"

text \<open>Python's truth value; a \<^verbatim>\<open>FishbowlObject\<close> is true when its mapping is not empty.\<close>

fun truthy :: "pyval \<Rightarrow> bool" where
  "truthy VNone = False"
| "truthy (VStr s) = (s \<noteq> [])"
| "truthy (VInt i) = (i \<noteq> 0)"
| "truthy (VBool b) = b"
| "truthy (VList xs) = (xs \<noteq> [])"
| "truthy (VDict d) = (d \<noteq> [])"
| "truthy (VObj n m) = (m \<noteq> [])"

text \<open>
  \<^verbatim>\<open>d[k] = v\<close> keeps the position of a key that is present and appends a new one;
  \<^verbatim>\<open>dict(pairs)\<close> and \<^verbatim>\<open>d.update(other)\<close> store the pairs one after the other;
  \<^verbatim>\<open>d.get(k)\<close> is \<open>map_of d k\<close>.
\<close>

fun dict_set :: "(string \<times> 'v) list \<Rightarrow> string \<Rightarrow> 'v \<Rightarrow> (string \<times> 'v) list" where
  "dict_set [] k v = [(k, v)]"
| "dict_set ((k', v') # d) k v = (if k' = k then (k', v) # d else (k', v') # dict_set d k v)"

definition dict_of :: "(string \<times> 'v) list \<Rightarrow> (string \<times> 'v) list" where
  "dict_of pairs = foldl (\<lambda>d (k, v). dict_set d k v) [] pairs"

definition dict_update :: "(string \<times> 'v) list \<Rightarrow> (string \<times> 'v) list \<Rightarrow> (string \<times> 'v) list" where
  "dict_update d other = foldl (\<lambda>d (k, v). dict_set d k v) d other"

definition dict_remove :: "(string \<times> 'v) list \<Rightarrow> string \<Rightarrow> (string \<times> 'v) list" where
  "dict_remove d k = filter (\<lambda>(k', v). k' \<noteq> k) d"

definition has_key :: "(string \<times> 'v) list \<Rightarrow> string \<Rightarrow> bool" where
  "has_key d k = (map_of d k \<noteq> None)"

text \<open>
  \<^verbatim>\<open>str.lower\<close> on characters below 256: the upper-case letters are \<^verbatim>\<open>A\<close> to \<^verbatim>\<open>Z\<close>
  (65 to 90) and the accented capitals 192 to 222 without the multiplication sign 215;
  the lower-case letter is 32 higher, which sets the bit of value 32.
\<close>

definition lower_char :: "char \<Rightarrow> char" where
  "lower_char c =
     (let n = (of_char c :: nat)
      in if (65 \<le> n \<and> n \<le> 90) \<or> (192 \<le> n \<and> n \<le> 222 \<and> n \<noteq> 215)
         then Char (digit0 c) (digit1 c) (digit2 c) (digit3 c) (digit4 c) True (digit6 c) (digit7 c)
         else c)"

definition lower :: "string \<Rightarrow> string" where
  "lower s = map lower_char s"

text \<open>\<^verbatim>\<open>str.isspace\<close> and \<^verbatim>\<open>str.strip()\<close> on characters below 256.\<close>

definition isspace :: "char \<Rightarrow> bool" where
  "isspace c = (let n = (of_char c :: nat)
                in (9 \<le> n \<and> n \<le> 13) \<or> (28 \<le> n \<and> n \<le> 32) \<or> n = 133 \<or> n = 160)"

definition strip :: "string \<Rightarrow> string" where
  "strip s = rev (dropWhile isspace (rev (dropWhile isspace s)))"

text \<open>
  The built-in \<^verbatim>\<open>int\<close>, the parser of most identifier fields. On a string: white space
  around the number is dropped (tab to carriage return, space, and the two white-space
  characters above 127, which CPython turns into spaces first; the separators 28 to 31
  are not accepted), then an optional sign, then decimal digits, where single underscores
  may stand between digits. Anything else raises \<^verbatim>\<open>ValueError\<close>. An integer is returned
  as it is, a boolean as 0 or 1, and \<^verbatim>\<open>None\<close>, lists, dictionaries and objects raise
  \<^verbatim>\<open>TypeError\<close>. (The limit on the number of digits of recent CPython releases is not
  modelled.)
\<close>

definition int_space :: "char \<Rightarrow> bool" where
  "int_space c = (let n = (of_char c :: nat)
                  in (9 \<le> n \<and> n \<le> 13) \<or> n = 32 \<or> n = 133 \<or> n = 160)"

definition is_digit :: "char \<Rightarrow> bool" where
  "is_digit c = (48 \<le> (of_char c :: nat) \<and> (of_char c :: nat) \<le> 57)"

definition digit_val :: "char \<Rightarrow> int" where
  "digit_val c = int (of_char c) - 48"

fun int_digits :: "string \<Rightarrow> int \<Rightarrow> int option" where
  "int_digits [] acc = Some acc"
| "int_digits [c] acc = (if is_digit c then Some (10 * acc + digit_val c) else None)"
| "int_digits (c # d # cs) acc =
     (if is_digit c then int_digits (d # cs) (10 * acc + digit_val c)
      else if c = CHR ''_'' \<and> is_digit d then int_digits cs (10 * acc + digit_val d)
      else None)"

definition int_magnitude :: "string \<Rightarrow> int option" where
  "int_magnitude s =
     (case s of [] \<Rightarrow> None
      | c # cs \<Rightarrow> if is_digit c then int_digits cs (digit_val c) else None)"

definition int_of_str :: "string \<Rightarrow> int option" where
  "int_of_str s =
     (case rev (dropWhile int_space (rev (dropWhile int_space s))) of
        [] \<Rightarrow> None
      | c # cs \<Rightarrow>
          if c = CHR ''+'' then int_magnitude cs
          else if c = CHR ''-'' then map_option uminus (int_magnitude cs)
          else int_magnitude (c # cs))"

fun py_int :: "pyval \<Rightarrow> exn + pyval" where
  "py_int (VStr s) = (case int_of_str s of None \<Rightarrow> Inl ValueError | Some i \<Rightarrow> Inr (VInt i))"
| "py_int (VInt i) = Inr (VInt i)"
| "py_int (VBool b) = Inr (VInt (if b then 1 else 0))"
| "py_int _ = Inl TypeError"

text \<open>
  \<^verbatim>\<open>
  def fishbowl_boolean(text):
      if not text:
          return False
      if text.lower() in ("0", "false", "f"):
          return False
      return True
  \<close>
  Only a string has \<^verbatim>\<open>lower\<close>: another true value raises \<^verbatim>\<open>AttributeError\<close>.
\<close>

fun fishbowl_boolean :: "pyval \<Rightarrow> exn + pyval" where
  "fishbowl_boolean text =
     (if \<not> truthy text then Inr (VBool False)
      else case text of
        VStr s \<Rightarrow> if lower s \<in> set [''0'', ''false'', ''f''] then Inr (VBool False)
                  else Inr (VBool True)
      | _ \<Rightarrow> Inl AttributeError)"

section \<open>Schemas and the object mapper (\<^verbatim>\<open>FishbowlObject.parse_fields\<close>)\<close>

text \<open>
  A parser descriptor, the value of an entry of \<^verbatim>\<open>fields\<close>: \<^verbatim>\<open>None\<close>, a function (it
  returns a value or raises an exception), a nested dictionary of fields, a list of
  classes, a class, or an instance of \<^verbatim>\<open>FishbowlObject\<close> (the case of the
  \<^verbatim>\<open>isinstance(parser, FishbowlObject)\<close> branch). A class is a subclass of
  \<^verbatim>\<open>FishbowlObject\<close>: its \<^verbatim>\<open>__name__\<close>, its \<^verbatim>\<open>id_field\<close> and its \<^verbatim>\<open>fields\<close>.
\<close>

datatype parser =
    PNone
  | PFun "pyval \<Rightarrow> exn + pyval"
  | PDict "(string \<times> parser) list"
  | PList "fbclass list"
  | PClass fbclass
  | PInst
and fbclass =
  FbClass (cls_name: string) (cls_id_field: "string option")
    (cls_fields: "(string \<times> parser) list")

text \<open>
  \<^verbatim>\<open>
  def strip_text(el):
      if el.text:
          return el.text.strip()
      return ""

  def get_xml_data(self, base_el):
      data = collections.OrderedDict()
      for child in base_el:
          children = len(child)
          key = child.tag
          if children:
              if [el for el in child if strip_text(el)]:
                  data[key] = self.get_xml_data(child)
              else:
                  inner = []
                  for el in child:
                      inner_key = el.tag
                      inner.append({inner_key: self.get_xml_data(el)})
                  data[key] = inner
          else:
              value = child.text
              data[key] = value
      return data
  \<close>
\<close>

definition strip_text :: "xml \<Rightarrow> string" where
  "strip_text el = (case xml_text el of None \<Rightarrow> [] | Some t \<Rightarrow> if t = [] then [] else strip t)"

fun get_xml_data :: "xml \<Rightarrow> (string \<times> pyval) list"
  and get_xml_data_loop :: "xml list \<Rightarrow> (string \<times> pyval) list \<Rightarrow> (string \<times> pyval) list"
  and get_xml_data_inner :: "xml list \<Rightarrow> pyval list \<Rightarrow> pyval list" where
  "get_xml_data (Element t a tx cs) = get_xml_data_loop cs []"
| "get_xml_data_loop [] data = data"
| "get_xml_data_loop (Element child_tag a tx cs # rest) data =
     get_xml_data_loop rest
       (if cs \<noteq> []
        then (if filter (\<lambda>el. strip_text el \<noteq> []) cs \<noteq> []
              then dict_set data child_tag (VDict (get_xml_data (Element child_tag a tx cs)))
              else dict_set data child_tag (VList (get_xml_data_inner cs [])))
        else dict_set data child_tag (case tx of None \<Rightarrow> VNone | Some t \<Rightarrow> VStr t))"
| "get_xml_data_inner [] inner = inner"
| "get_xml_data_inner (Element inner_key a tx cs # rest) inner =
     get_xml_data_inner rest
       (inner @ [VDict [(inner_key, VDict (get_xml_data (Element inner_key a tx cs)))]])"

text \<open>
  \<^verbatim>\<open>
  if not isinstance(data, dict):
      data = self.get_xml_data(data)
  \<close>
  on a value: a dictionary stays. Of the other values, the empty string, list and object
  have nothing to iterate over and give an empty dictionary; the first item of a
  non-empty one fails at \<^verbatim>\<open>len(child)\<close> (\<^verbatim>\<open>TypeError\<close>: \<^verbatim>\<open>None\<close>, an integer, a
  boolean) or at \<^verbatim>\<open>child.tag\<close> (\<^verbatim>\<open>AttributeError\<close>); integers and booleans cannot be
  iterated over (\<^verbatim>\<open>TypeError\<close>).
\<close>

fun get_data_of_value :: "pyval \<Rightarrow> exn + (string \<times> pyval) list" where
  "get_data_of_value (VDict d) = Inr d"
| "get_data_of_value (VStr s) = (if s = [] then Inr [] else Inl AttributeError)"
| "get_data_of_value (VList []) = Inr []"
| "get_data_of_value (VList (VNone # xs)) = Inl TypeError"
| "get_data_of_value (VList (VInt i # xs)) = Inl TypeError"
| "get_data_of_value (VList (VBool b # xs)) = Inl TypeError"
| "get_data_of_value (VList (x # xs)) = Inl AttributeError"
| "get_data_of_value (VObj n m) = (if m = [] then Inr [] else Inl AttributeError)"
| "get_data_of_value _ = Inl TypeError"

text \<open>
  \<^verbatim>\<open>dict((cls.__name__, cls) for cls in parser)\<close>. The registry
  \<^verbatim>\<open>all_fishbowl_objects()\<close>, the classes of the module under their names, is the
  same dictionary of the list \<open>reg\<close> of those classes, a parameter of the mapper.
\<close>

definition class_dict :: "fbclass list \<Rightarrow> (string \<times> fbclass) list" where
  "class_dict classes = dict_of (map (\<lambda>cls. (cls_name cls, cls)) classes)"

text \<open>
  \<^verbatim>\<open>
  key = data_map.get(field_name.lower())
  value = data.get(key)
  \<close>
\<close>

definition data_get :: "(string \<times> pyval) list \<Rightarrow> (string \<times> string) list \<Rightarrow> string \<Rightarrow> pyval" where
  "data_get d data_map field_name =
     (case map_of data_map (lower field_name) of
        None \<Rightarrow> VNone
      | Some k \<Rightarrow> (case map_of d k of None \<Rightarrow> VNone | Some v \<Rightarrow> v))"

text \<open>
  \<^verbatim>\<open>
  if self.id_field and self.id_field not in output:
      value = output.pop("ID", None)
      if value:
          output[self.id_field] = value
  \<close>
\<close>

definition rename_id :: "fbclass \<Rightarrow> (string \<times> pyval) list \<Rightarrow> (string \<times> pyval) list" where
  "rename_id self output =
     (case cls_id_field self of
        None \<Rightarrow> output
      | Some idf \<Rightarrow>
          if idf \<noteq> [] \<and> \<not> has_key output idf
          then (let value = (case map_of output ''ID'' of None \<Rightarrow> VNone | Some v \<Rightarrow> v);
                    output = dict_remove output ''ID''
                in if truthy value then dict_set output idf value else output)
          else output)"

text \<open>
  \<^verbatim>\<open>value[0]\<close> of a list (the value is true, so the list is not empty),
  \<^verbatim>\<open>[value]\<close> of a value that is not a list, and \<^verbatim>\<open>value_item.items()\<close>, which a
  dictionary and a \<^verbatim>\<open>FishbowlObject\<close> (a \<^verbatim>\<open>Mapping\<close>) have.
\<close>

definition first_item :: "pyval \<Rightarrow> pyval" where
  "first_item value = (case value of VList (x # xs) \<Rightarrow> x | _ \<Rightarrow> value)"

definition as_list :: "pyval \<Rightarrow> pyval list" where
  "as_list value = (case value of VList xs \<Rightarrow> xs | _ \<Rightarrow> [value])"

definition items_of :: "pyval \<Rightarrow> exn + (string \<times> pyval) list" where
  "items_of value_item =
     (case value_item of
        VDict pairs \<Rightarrow> Inr pairs
      | VObj n pairs \<Rightarrow> Inr pairs
      | _ \<Rightarrow> Inl AttributeError)"

text \<open>
  \<^verbatim>\<open>
  def parse_fields(self, data, fields=None):
      if data is None:
          return {}
      if fields is None:
          fields = self.fields
          if self.custom_fields:
              fields = copy.deepcopy(fields)
              fields.update(self.custom_fields)
      if not isinstance(data, dict):
          data = self.get_xml_data(data)
      output = collections.OrderedDict()
      items = list(fields.items())
      if self.id_field and "ID" not in fields:
          items.append(("ID", int))
      # Load the data in without case sensitivity.
      data_map = dict((k.lower(), k) for k in data)
      for field_name, parser in items:
          key = data_map.get(field_name.lower())
          value = data.get(key)
          if value is None:
              continue
          if isinstance(parser, dict):
              if not value:
                  continue
              if isinstance(value, list):
                  value = value[0]
              value = self.parse_fields(value, parser)
          elif isinstance(parser, list):
              new_value = []
              if parser:
                  classes = dict((cls.__name__, cls) for cls in parser)
              else:
                  classes = all_fishbowl_objects()
              if not isinstance(value, list):
                  value = [value]
              for value_item in value:
                  if value_item in ["{}"]:  # TODO: Figure out why this happened?
                      continue
                  for tag, child in value_item.items():
                      child_parser = classes.get(tag)
                      if not child_parser:
                          continue
                      new_value.append(child_parser(child))
              value = new_value
          elif isinstance(parser, FishbowlObject):
              value = parser(data)
          else:
              if parser:
                  try:
                      value = parser(value)
                  except Exception:
                      continue
          output[field_name] = value
      if self.id_field and self.id_field not in output:
          value = output.pop("ID", None)
          if value:
              output[self.id_field] = value
      return output
  \<close>
  \<open>self\<close> is the class of the object and \<open>custom\<close> its \<^verbatim>\<open>custom_fields\<close>.
  \<open>fields_loop\<close> is the loop over \<open>items\<close> and \<open>field_value\<close> its body up to the
  assignment to \<open>output\<close>: it raises, or ends the iteration with \<^verbatim>\<open>continue\<close> (\<open>None\<close>),
  or gives the value to store. \<open>value_loop\<close> is the loop over the items of a list value
  and \<open>child_loop\<close> the loop over the pairs of one item. \<open>construct\<close> is the call
  of a class on data, \<^verbatim>\<open>child_parser(child)\<close>:
  \<^verbatim>\<open>
  def __init__(self, data=None, lazy_data=None, name=None, custom_fields=None):
      if not (data is None) ^ (lazy_data is None):
          raise AttributeError("Expected either data or lazy_data")
      ...
      if data is not None:
          self.mapped = self.parse_fields(data)
  \<close>
  A class as a parser falls into the last branch, where its call is inside the \<^verbatim>\<open>try\<close>.
  An instance as a parser cannot be called: \<^verbatim>\<open>TypeError\<close>.
\<close>

function parse_fields ::
    "fbclass list \<Rightarrow> fbclass \<Rightarrow> (string \<times> parser) list option \<Rightarrow> pyval
      \<Rightarrow> (string \<times> parser) list option \<Rightarrow> exn + (string \<times> pyval) list"
  and fields_loop ::
    "fbclass list \<Rightarrow> fbclass \<Rightarrow> (string \<times> parser) list option \<Rightarrow> (string \<times> pyval) list
      \<Rightarrow> (string \<times> string) list \<Rightarrow> (string \<times> parser) list \<Rightarrow> (string \<times> pyval) list
      \<Rightarrow> exn + (string \<times> pyval) list"
  and field_value ::
    "fbclass list \<Rightarrow> fbclass \<Rightarrow> (string \<times> parser) list option \<Rightarrow> (string \<times> pyval) list
      \<Rightarrow> (string \<times> string) list \<Rightarrow> string \<Rightarrow> parser \<Rightarrow> exn + pyval option"
  and value_loop ::
    "fbclass list \<Rightarrow> (string \<times> fbclass) list \<Rightarrow> pyval list \<Rightarrow> pyval list \<Rightarrow> exn + pyval list"
  and child_loop ::
    "fbclass list \<Rightarrow> (string \<times> fbclass) list \<Rightarrow> (string \<times> pyval) list \<Rightarrow> pyval list
      \<Rightarrow> exn + pyval list"
  and construct :: "fbclass list \<Rightarrow> fbclass \<Rightarrow> pyval \<Rightarrow> exn + pyval" where
  "parse_fields reg self custom data fields_arg =
     (if data = VNone then Inr []
      else
        (let flds = (case fields_arg of
                       Some f \<Rightarrow> f
                     | None \<Rightarrow> (case custom of
                                  None \<Rightarrow> cls_fields self
                                | Some cf \<Rightarrow> if cf = [] then cls_fields self
                                            else dict_update (cls_fields self) cf))
         in case get_data_of_value data of
              Inl e \<Rightarrow> Inl e
            | Inr d \<Rightarrow>
                (let items = (if truthy_str (cls_id_field self) \<and> \<not> has_key flds ''ID''
                              then flds @ [(''ID'', PFun py_int)] else flds);
                     data_map = dict_of (map (\<lambda>(k, v). (lower k, k)) d)
                 in case fields_loop reg self custom d data_map items [] of
                      Inl e \<Rightarrow> Inl e
                    | Inr output \<Rightarrow> Inr (rename_id self output))))"
| "fields_loop reg self custom d data_map [] output = Inr output"
| "fields_loop reg self custom d data_map ((field_name, parser) # items) output =
     (case field_value reg self custom d data_map field_name parser of
        Inl e \<Rightarrow> Inl e
      | Inr None \<Rightarrow> fields_loop reg self custom d data_map items output
      | Inr (Some value) \<Rightarrow>
          fields_loop reg self custom d data_map items (dict_set output field_name value))"
| "field_value reg self custom d data_map field_name parser =
     (let value = data_get d data_map field_name
      in if value = VNone then Inr None
         else
           (case parser of
              PDict nested \<Rightarrow>
                if \<not> truthy value then Inr None
                else (case parse_fields reg self custom (first_item value) (Some nested) of
                        Inl e \<Rightarrow> Inl e
                      | Inr m \<Rightarrow> Inr (Some (VDict m)))
            | PList candidates \<Rightarrow>
                (case value_loop reg
                        (if candidates \<noteq> [] then class_dict candidates else class_dict reg)
                        (as_list value) [] of
                   Inl e \<Rightarrow> Inl e
                 | Inr new_value \<Rightarrow> Inr (Some (VList new_value)))
            | PInst \<Rightarrow> Inl TypeError
            | PNone \<Rightarrow> Inr (Some value)
            | PFun f \<Rightarrow> (case f value of Inl e \<Rightarrow> Inr None | Inr v \<Rightarrow> Inr (Some v))
            | PClass cls \<Rightarrow>
                (case construct reg cls value of Inl e \<Rightarrow> Inr None | Inr v \<Rightarrow> Inr (Some v))))"
| "value_loop reg classes [] new_value = Inr new_value"
| "value_loop reg classes (value_item # rest) new_value =
     (if value_item = VStr ''{}'' then value_loop reg classes rest new_value
      else (case items_of value_item of
              Inl e \<Rightarrow> Inl e
            | Inr pairs \<Rightarrow>
                (case child_loop reg classes pairs new_value of
                   Inl e \<Rightarrow> Inl e
                 | Inr new_value' \<Rightarrow> value_loop reg classes rest new_value')))"
| "child_loop reg classes [] new_value = Inr new_value"
| "child_loop reg classes ((child_tag, child) # pairs) new_value =
     (case map_of classes child_tag of
        None \<Rightarrow> child_loop reg classes pairs new_value
      | Some child_parser \<Rightarrow>
          (case construct reg child_parser child of
             Inl e \<Rightarrow> Inl e
           | Inr obj \<Rightarrow> child_loop reg classes pairs (new_value @ [obj])))"
| "construct reg cls data =
     (if data = VNone then Inl AttributeError
      else (case parse_fields reg cls None data None of
              Inl e \<Rightarrow> Inl e
            | Inr m \<Rightarrow> Inr (VObj (cls_name cls) m)))"
  by pat_completeness auto

text \<open>
  Every recursive call is on a part of the data: the sizes below decrease along the calls.
\<close>

lemma size_dict_value:
  "map_of d k = Some v \<Longrightarrow> size v < sum_list (map (\<lambda>(k, v). Suc (size v)) d)"
  by (induction d) (auto split: if_splits)

lemma size_dict_less: "sum_list (map (\<lambda>(k, v). Suc (size v)) d) < size (VDict d)"
  by (induction d) auto

lemma size_data_get:
  "data_get d data_map field_name \<noteq> VNone
   \<Longrightarrow> size (data_get d data_map field_name) < sum_list (map (\<lambda>(k, v). Suc (size v)) d)"
  by (auto simp: data_get_def size_dict_value split: option.splits)

lemma size_first_item: "size (first_item v) \<le> size v"
  by (auto simp: first_item_def split: pyval.splits list.splits)

lemma size_as_list: "sum_list (map size (as_list v)) \<le> size v"
proof (cases v)
  case (VList xs)
  have "sum_list (map size xs) \<le> size_list size xs" by (induction xs) auto
  with VList show ?thesis by (simp add: as_list_def)
qed (simp_all add: as_list_def)

lemma size_items_of:
  "items_of v = Inr pairs \<Longrightarrow> sum_list (map (\<lambda>(k, v). Suc (size v)) pairs) < size v"
  using size_dict_less[of pairs] by (auto simp: items_of_def split: pyval.splits)

lemma size_get_data:
  "get_data_of_value data = Inr d \<Longrightarrow> sum_list (map (\<lambda>(k, v). Suc (size v)) d) \<le> size data"
  using size_dict_less[of d]
  by (induction data rule: get_data_of_value.induct) (auto split: if_splits)

termination parse_fields
  apply (relation "measures [
     (\<lambda>x. case x of
        Inl (Inl (reg, self, custom, data, fields_arg)) \<Rightarrow> size data
      | Inl (Inr (Inl (reg, self, custom, d, data_map, items, output))) \<Rightarrow>
          sum_list (map (\<lambda>(k, v). Suc (size v)) d)
      | Inl (Inr (Inr (reg, self, custom, d, data_map, field_name, parser))) \<Rightarrow>
          sum_list (map (\<lambda>(k, v). Suc (size v)) d)
      | Inr (Inl (reg, classes, values, new_value)) \<Rightarrow> sum_list (map size values)
      | Inr (Inr (Inl (reg, classes, pairs, new_value))) \<Rightarrow>
          sum_list (map (\<lambda>(k, v). Suc (size v)) pairs)
      | Inr (Inr (Inr (reg, cls, data))) \<Rightarrow> size data),
     (\<lambda>x. case x of
        Inl (Inl (reg, self, custom, data, fields_arg)) \<Rightarrow> 1
      | Inl (Inr (Inl (reg, self, custom, d, data_map, items, output))) \<Rightarrow> 0
      | Inl (Inr (Inr (reg, self, custom, d, data_map, field_name, parser))) \<Rightarrow> 0
      | Inr (Inl (reg, classes, values, new_value)) \<Rightarrow> 0
      | Inr (Inr (Inl (reg, classes, pairs, new_value))) \<Rightarrow> 0
      | Inr (Inr (Inr (reg, cls, data))) \<Rightarrow> 2),
     (\<lambda>x. case x of
        Inl (Inl (reg, self, custom, data, fields_arg)) \<Rightarrow> 0
      | Inl (Inr (Inl (reg, self, custom, d, data_map, items, output))) \<Rightarrow> length items
      | Inl (Inr (Inr (reg, self, custom, d, data_map, field_name, parser))) \<Rightarrow> 0
      | Inr (Inl (reg, classes, values, new_value)) \<Rightarrow> length values
      | Inr (Inr (Inl (reg, classes, pairs, new_value))) \<Rightarrow> length pairs
      | Inr (Inr (Inr (reg, cls, data))) \<Rightarrow> 0)]")
  apply simp_all
  subgoal by (drule size_get_data) (simp add: le_less)
  subgoal for d data_map field_name
    using size_data_get[of d data_map field_name]
      size_first_item[of "data_get d data_map field_name"] by simp
  subgoal for d data_map field_name
    using size_data_get[of d data_map field_name]
      size_as_list[of "data_get d data_map field_name"] by simp
  subgoal by (rule size_data_get)
  subgoal by (drule size_items_of) simp
  subgoal by auto
  done

declare parse_fields.simps [simp del] field_value.simps [simp del] construct.simps [simp del]

section \<open>Objects and lazy loading (\<^verbatim>\<open>FishbowlObject.__init__\<close>, \<^verbatim>\<open>mapped\<close>, \<^verbatim>\<open>__getitem__\<close>)\<close>

text \<open>
  The data a caller hands to an object, or a loader returns: an element of a response
  tree, or a value (a row of a query, or \<^verbatim>\<open>None\<close>). On an element, \<^verbatim>\<open>parse_fields\<close>
  first replaces it by \<^verbatim>\<open>get_xml_data\<close> of it, a dictionary, and goes on as on that
  dictionary.
\<close>

datatype source = Tree xml | Plain pyval

definition parse_fields_data ::
    "fbclass list \<Rightarrow> fbclass \<Rightarrow> (string \<times> parser) list option \<Rightarrow> source
      \<Rightarrow> exn + (string \<times> pyval) list" where
  "parse_fields_data reg self custom data =
     (case data of
        Tree base_el \<Rightarrow> parse_fields reg self custom (VDict (get_xml_data base_el)) None
      | Plain v \<Rightarrow> parse_fields reg self custom v None)"

text \<open>
  The attributes of an instance: its class, \<^verbatim>\<open>name\<close>, \<^verbatim>\<open>custom_fields\<close>,
  \<^verbatim>\<open>_lazy_load\<close> and \<^verbatim>\<open>_mapped\<close> (\<open>None\<close> while the attribute is not set). A loader
  is a callable without arguments that works on the world outside the object (it sends
  a request over a connection): it takes the world \<open>'w\<close> and returns the data or raises,
  and the new world.
\<close>

record 'w fbobject =
  obj_class :: fbclass
  obj_name :: "string option"
  custom_fields :: "(string \<times> parser) list option"
  lazy_load :: "('w \<Rightarrow> (exn + source) \<times> 'w) option"
  mapped_attr :: "(string \<times> pyval) list option"

text \<open>
  \<^verbatim>\<open>
  def __init__(self, data=None, lazy_data=None, name=None, custom_fields=None):
      if not (data is None) ^ (lazy_data is None):
          raise AttributeError("Expected either data or lazy_data")
      self.name = name
      self.custom_fields = custom_fields
      self._lazy_load = lazy_data
      if data is not None:
          self.mapped = self.parse_fields(data)
  \<close>
\<close>

definition init ::
    "fbclass list \<Rightarrow> fbclass \<Rightarrow> source \<Rightarrow> ('w \<Rightarrow> (exn + source) \<times> 'w) option \<Rightarrow> string option
      \<Rightarrow> (string \<times> parser) list option \<Rightarrow> exn + 'w fbobject" where
  "init reg cls data lazy_data name custom =
     (if (data = Plain VNone) = Option.is_none lazy_data then Inl AttributeError
      else
        (let self = \<lparr>obj_class = cls, obj_name = name, custom_fields = custom,
                      lazy_load = lazy_data, mapped_attr = None\<rparr>
         in if data = Plain VNone then Inr self
            else (case parse_fields_data reg cls custom data of
                    Inl e \<Rightarrow> Inl e
                  | Inr m \<Rightarrow> Inr (self\<lparr>mapped_attr := Some m\<rparr>))))"

text \<open>
  \<^verbatim>\<open>
  @property
  def mapped(self):
      if not hasattr(self, "_mapped"):
          self._mapped = self.parse_fields(self._lazy_load())
      return self._mapped

  def __getitem__(self, key):
      return self.mapped[key]
  \<close>
  Calling a \<^verbatim>\<open>_lazy_load\<close> that is \<^verbatim>\<open>None\<close> raises \<^verbatim>\<open>TypeError\<close>.
\<close>

definition mapped ::
    "fbclass list \<Rightarrow> 'w fbobject \<Rightarrow> 'w \<Rightarrow> (exn + (string \<times> pyval) list) \<times> 'w fbobject \<times> 'w" where
  "mapped reg self w =
     (case mapped_attr self of
        Some m \<Rightarrow> (Inr m, self, w)
      | None \<Rightarrow>
          (case lazy_load self of
             None \<Rightarrow> (Inl TypeError, self, w)
           | Some load \<Rightarrow>
               (case load w of
                  (Inl e, w') \<Rightarrow> (Inl e, self, w')
                | (Inr data, w') \<Rightarrow>
                    (case parse_fields_data reg (obj_class self) (custom_fields self) data of
                       Inl e \<Rightarrow> (Inl e, self, w')
                     | Inr m \<Rightarrow> (Inr m, self\<lparr>mapped_attr := Some m\<rparr>, w')))))"

definition getitem ::
    "fbclass list \<Rightarrow> 'w fbobject \<Rightarrow> string \<Rightarrow> 'w \<Rightarrow> (exn + pyval) \<times> 'w fbobject \<times> 'w" where
  "getitem reg self k w =
     (case mapped reg self w of
        (Inl e, self', w') \<Rightarrow> (Inl e, self', w')
      | (Inr m, self', w') \<Rightarrow>
          (case map_of m k of
             None \<Rightarrow> (Inl KeyError, self', w')
           | Some v \<Rightarrow> (Inr v, self', w')))"

text \<open>
  A caller that reads the keys \<open>ks\<close> of an object one after the other, and goes on after
  an access that raised. It returns what each access gave.
\<close>

fun getitems ::
    "fbclass list \<Rightarrow> 'w fbobject \<Rightarrow> string list \<Rightarrow> 'w
      \<Rightarrow> (exn + pyval) list \<times> 'w fbobject \<times> 'w" where
  "getitems reg self [] w = ([], self, w)"
| "getitems reg self (k # ks) w =
     (case getitem reg self k w of
        (r, self', w') \<Rightarrow>
          (case getitems reg self' ks w' of
             (rs, self'', w'') \<Rightarrow> (r # rs, self'', w'')))"

text \<open>
  A loader that counts its invocations: the world is paired with the count, which each
  call of the loader raises by one.
\<close>

definition counting :: "('w \<Rightarrow> 'r \<times> 'w) \<Rightarrow> nat \<times> 'w \<Rightarrow> 'r \<times> nat \<times> 'w" where
  "counting load = (\<lambda>(n, w). case load w of (r, w') \<Rightarrow> (r, Suc n, w'))"

section \<open>Properties of the frame codec\<close>

text \<open>The four bytes of \<^verbatim>\<open>struct.pack(">L", n)\<close> are the base-256 digits of \<open>n\<close>.\<close>

lemma be32_digits:
  fixes n :: nat
  assumes "n < 2 ^ 32"
  shows "n div 2 ^ 24 mod 256 * 2 ^ 24 + n div 2 ^ 16 mod 256 * 2 ^ 16
          + n div 2 ^ 8 mod 256 * 2 ^ 8 + n mod 256 = n"
proof -
  define q1 where "q1 = n div 256"
  define q2 where "q2 = q1 div 256"
  define q3 where "q3 = q2 div 256"
  have e1: "n div 2 ^ 8 = q1" by (simp add: q1_def)
  have e2: "n div 2 ^ 16 = q2"
    unfolding q2_def q1_def by (simp add: div_mult2_eq[symmetric])
  have e3: "n div 2 ^ 24 = q3"
    unfolding q3_def q2_def q1_def by (simp add: div_mult2_eq[symmetric])
  have d1: "n = q1 * 256 + n mod 256" by (simp add: q1_def)
  have d2: "q1 = q2 * 256 + q1 mod 256" by (simp add: q2_def)
  have d3: "q2 = q3 * 256 + q2 mod 256" by (simp add: q3_def)
  have "q3 < 256" using assms e3 by (simp add: less_mult_imp_div_less)
  then have d4: "q3 mod 256 = q3" by simp
  show ?thesis
    unfolding e1 e2 e3 d4 using d1 d2 d3 by simp
qed

lemma struct_unpack_pack:
  assumes "n < 2 ^ 32"
  shows "\<exists>h. struct_pack_L n = Inr h \<and> length h = 4 \<and> struct_unpack_L h = Inr n"
  using assms be32_digits[OF assms] by (simp add: struct_pack_L_def unat_of_nat)

lemma recv_Data_chunks:
  "concat chunks = x # xs \<Longrightarrow> 0 < n \<Longrightarrow>
   \<exists>k chunks'. recv n (map Data chunks @ es) = (Bytes (take k (x # xs)), map Data chunks' @ es)
      \<and> concat chunks' = drop k (x # xs) \<and> 0 < k \<and> k \<le> n"
proof (induction chunks)
  case Nil
  then show ?case by simp
next
  case (Cons c cs)
  show ?case
  proof (cases "c = []")
    case True
    with Cons show ?thesis by simp
  next
    case False
    define k where "k = min n (length c)"
    have k: "0 < k" "k \<le> n" using False Cons.prems by (auto simp: k_def)
    have cat: "c @ concat cs = x # xs" using Cons.prems by simp
    have tk: "take n c = take k (x # xs)"
      unfolding cat[symmetric] k_def by (simp add: min_def)
    show ?thesis
    proof (cases "drop n c = []")
      case True
      then have "length c \<le> n" by simp
      then have "k = length c" by (simp add: k_def)
      then have "concat cs = drop k (x # xs)"
        unfolding cat[symmetric] by simp
      with True False tk k show ?thesis
        by (intro exI[of _ k] exI[of _ cs]) simp
    next
      case nonempty: False
      then have "n < length c" by simp
      then have "k = n" by (simp add: k_def)
      then have "concat (drop n c # cs) = drop k (x # xs)"
        unfolding cat[symmetric] using \<open>n < length c\<close> by simp
      with nonempty False tk k show ?thesis
        by (intro exI[of _ k] exI[of _ "drop n c # cs"]) simp
    qed
  qed
qed

lemma recv_length_chunks:
  "length acc + length h = 4 \<Longrightarrow> concat chunks = h @ rest \<Longrightarrow>
   \<exists>chunks'. recv_length (map Data chunks @ es) acc = Some (Bytes (acc @ h), map Data chunks' @ es)
      \<and> concat chunks' = rest"
proof (induction "length h" arbitrary: h acc chunks rule: less_induct)
  case less
  show ?case
  proof (cases h)
    case Nil
    with less.prems show ?thesis
      by (subst recv_length.simps) auto
  next
    case (Cons x xs)
    with less.prems have lt: "length acc < 4" by simp
    from Cons less.prems have cat: "concat chunks = x # (xs @ rest)" by simp
    from recv_Data_chunks[OF cat, of "4 - length acc" es] lt
    obtain k chunks' where r: "recv (4 - length acc) (map Data chunks @ es)
          = (Bytes (take k (x # (xs @ rest))), map Data chunks' @ es)"
      and c': "concat chunks' = drop k (x # (xs @ rest))"
      and k: "0 < k" "k \<le> 4 - length acc"
      by auto
    from k less.prems have kh: "k \<le> length h" by simp
    have hr: "x # (xs @ rest) = h @ rest" using Cons by simp
    have tk: "take k (x # (xs @ rest)) = take k h" unfolding hr using kh by simp
    have dk: "drop k (x # (xs @ rest)) = drop k h @ rest" unfolding hr using kh by simp
    have "\<exists>chunks''. recv_length (map Data chunks' @ es) (acc @ take k h)
            = Some (Bytes ((acc @ take k h) @ drop k h), map Data chunks'' @ es)
          \<and> concat chunks'' = rest"
      using k kh less.prems c' dk
      by (intro less.hyps) auto
    then show ?thesis
      using lt r tk by (subst recv_length.simps) simp
  qed
qed

lemma recv_payload_chunks:
  "concat chunks = p @ rest \<Longrightarrow> len = byte_count + length p \<Longrightarrow>
   \<exists>chunks'. recv_payload (map Data chunks @ es) len byte_count response
        = (Response (response @ p), map Data chunks' @ es)
      \<and> concat chunks' = rest"
proof (induction p arbitrary: chunks byte_count response)
  case Nil
  then show ?case by (subst recv_payload.simps) auto
next
  case (Cons b p)
  from Cons.prems have cat: "concat chunks = b # (p @ rest)" by simp
  from recv_Data_chunks[OF cat, of 1 es]
  obtain k chunks' where r0: "recv 1 (map Data chunks @ es)
        = (Bytes (take k (b # (p @ rest))), map Data chunks' @ es)"
    and c0: "concat chunks' = drop k (b # (p @ rest))" and k: "0 < k" "k \<le> 1"
    by auto
  from k have "k = 1" by simp
  with r0 c0 have r: "recv 1 (map Data chunks @ es) = (Bytes [b], map Data chunks' @ es)"
    and c': "concat chunks' = p @ rest"
    by simp_all
  from Cons.IH[OF c', of "byte_count + 1" "response @ [b]"] Cons.prems r
  show ?case by (subst recv_payload.simps) simp
qed

lemma receive_frame:
  assumes len: "length payload < 2 ^ 32"
    and frame: "pack_message payload = Inr frame"
    and cat: "concat chunks = frame @ rest"
  shows "\<exists>chunks'. receive (map Data chunks @ es) = Some (Response payload, map Data chunks' @ es)
          \<and> concat chunks' = rest"
proof -
  from struct_unpack_pack[OF len] obtain h where h: "struct_pack_L (length payload) = Inr h"
    "length h = 4" "struct_unpack_L h = Inr (length payload)" by auto
  with frame have fr: "frame = h @ payload" by (simp add: pack_message_def)
  with cat have cat': "concat chunks = h @ (payload @ rest)" by simp
  from recv_length_chunks[OF _ cat', of "[]" es] h(2)
  obtain chunks1 where hdr: "recv_length (map Data chunks @ es) [] = Some (Bytes h, map Data chunks1 @ es)"
    and c1: "concat chunks1 = payload @ rest" by auto
  from recv_payload_chunks[OF c1, of "length payload" 0 es "[]"]
  obtain chunks2 where "recv_payload (map Data chunks1 @ es) (length payload) 0 []
      = (Response payload, map Data chunks2 @ es)" and "concat chunks2 = rest" by auto
  with hdr h(3) show ?thesis by (auto simp: receive_def)
qed

text \<open>
  Claim C1, as the code has it. For every payload of fewer than \<open>2 ^ 32\<close> bytes (so in
  particular for the lengths 0, 1, 65535 and 1000000), \<^verbatim>\<open>pack_message\<close> returns the
  4-byte big-endian length followed by the payload, and the receive block of
  \<^verbatim>\<open>send_message\<close>, reading a stream that delivers this frame cut into segments in any
  way, reads exactly the frame and yields the payload: what follows the frame (\<open>rest\<close>
  and the later events \<open>es\<close>) is left in the stream.
\<close>

theorem frame_roundtrip:
  assumes "length payload < 2 ^ 32"
  shows "\<exists>frame. pack_message payload = Inr frame
           \<and> frame = take 4 frame @ payload
           \<and> struct_unpack_L (take 4 frame) = Inr (length payload)
           \<and> (\<forall>chunks rest es. concat chunks = frame @ rest \<longrightarrow>
                (\<exists>chunks'. receive (map Data chunks @ es)
                              = Some (Response payload, map Data chunks' @ es)
                    \<and> concat chunks' = rest))"
proof -
  from struct_unpack_pack[OF assms] obtain h where h: "struct_pack_L (length payload) = Inr h"
    "length h = 4" "struct_unpack_L h = Inr (length payload)" by auto
  then have fr: "pack_message payload = Inr (h @ payload)" by (simp add: pack_message_def)
  show ?thesis
    using fr h receive_frame[OF assms fr] by (intro exI[of _ "h @ payload"]) auto
qed

text \<open>
  C1 at the payload \<^verbatim>\<open>b"\x01\x02\x03"\<close>, delivered as 1 + 2 + 2 + 3 bytes, the last
  segment carrying one byte of the next frame.
\<close>

theorem frame_roundtrip_witness:
  "length [1, 2, 3 :: byte] < 2 ^ 32
   \<and> pack_message [1, 2, 3] = Inr [0, 0, 0, 3, 1, 2, 3]
   \<and> (\<exists>s. receive [Data [0], Data [0, 0], Data [3, 1], Data [2, 3, 9], TimesOut]
            = Some (Response [1, 2, 3], s))"
proof -
  have len: "length [1, 2, 3 :: byte] < 2 ^ 32" by simp
  have pk: "pack_message [1, 2, 3] = Inr [0, 0, 0, 3, 1, 2, 3]"
    by (simp add: pack_message_def struct_pack_L_def)
  from frame_roundtrip[OF len] pk
  have "\<forall>chunks rest es. concat chunks = [0, 0, 0, 3, 1, 2, 3 :: byte] @ rest \<longrightarrow>
          (\<exists>chunks'. receive (map Data chunks @ es)
              = Some (Response [1, 2, 3], map Data chunks' @ es) \<and> concat chunks' = rest)"
    by auto
  from this[rule_format, of "[[0], [0, 0], [3, 1], [2, 3, 9]]" "[9]" "[TimesOut]"]
  show ?thesis using len pk by auto
qed

text \<open>
  Claim C1 as stated speaks of every payload. A payload of \<open>2 ^ 32\<close> bytes has no frame:
  \<^verbatim>\<open>struct.pack\<close> raises \<^verbatim>\<open>struct.error\<close>.
\<close>

theorem pack_message_too_long:
  "pack_message (replicate (2 ^ 32) (0 :: byte)) = Inl StructError"
  by (simp add: pack_message_def struct_pack_L_def)

section \<open>Properties of the status checker\<close>

text \<open>
  Claim C6. \<^verbatim>\<open>check_status\<close> raises if and only if the status code differs from the
  expected code and it is not the case that \<open>allow_none\<close> holds with the code absent.
  What it raises is \<^verbatim>\<open>FishbowlError\<close> with the resolved message, what it returns on
  success is the resolved message: the \<^verbatim>\<open>statusMessage\<close> attribute, or the lookup of
  the code when that attribute is absent.
\<close>

theorem check_status_raises_iff:
  "((\<exists>e. check_status gs element expected allow_none = Inl e)
      \<longleftrightarrow> xml_get element ''statusCode'' \<noteq> expected
           \<and> \<not> (allow_none \<and> xml_get element ''statusCode'' = None))
   \<and> check_status gs element expected allow_none =
       (if xml_get element ''statusCode'' \<noteq> expected
           \<and> \<not> (allow_none \<and> xml_get element ''statusCode'' = None)
        then Inl (FishbowlError (case xml_get element ''statusMessage'' of
                                   None \<Rightarrow> gs (xml_get element ''statusCode'')
                                 | Some m \<Rightarrow> m))
        else Inr (case xml_get element ''statusMessage'' of
                    None \<Rightarrow> gs (xml_get element ''statusCode'')
                  | Some m \<Rightarrow> m))"
  by (auto simp: check_status_def Let_def)

text \<open>
  C6 at the three cases of the specification: code 1010 expected 1010; code 1000
  expected 1010 without \<open>allow_none\<close>; no code with \<open>allow_none\<close>.
\<close>

theorem check_status_raises_iff_witness:
  "check_status (\<lambda>code. ''lookup'') (Element ''Rs'' [(''statusCode'', ''1010''), (''statusMessage'', ''Logged out'')] None [])
      (Some ''1010'') False = Inr ''Logged out''
   \<and> check_status (\<lambda>code. ''lookup'') (Element ''Rs'' [(''statusCode'', ''1000'')] None [])
      (Some ''1010'') False = Inl (FishbowlError ''lookup'')
   \<and> check_status (\<lambda>code. ''lookup'') (Element ''Rs'' [] None []) (Some ''1010'') True = Inr ''lookup''"
  using check_status_raises_iff[of "\<lambda>code. ''lookup''" "Element ''Rs'' [(''statusCode'', ''1010''), (''statusMessage'', ''Logged out'')] None []" "Some ''1010''" False]
    check_status_raises_iff[of "\<lambda>code. ''lookup''" "Element ''Rs'' [(''statusCode'', ''1000'')] None []" "Some ''1010''" False]
    check_status_raises_iff[of "\<lambda>code. ''lookup''" "Element ''Rs'' [] None []" "Some ''1010''" True]
  by (simp add: xml_get_def)

section \<open>Properties of the connection\<close>

text \<open>
  \<^verbatim>\<open>close\<close> on a connection that holds no key sends nothing: it only checks the
  connected flag and closes the socket. \<^verbatim>\<open>send_message\<close> on such a connection sends
  at most the frame of its message, and a read that times out closes the connection.
\<close>

lemma close_unkeyed:
  assumes "\<not> truthy_str (key c)"
  shows "close E c skip_errors =
           (if \<not> connected c
            then Some (if skip_errors then None else Some (OSError ''Not connected''), c)
            else Some (None, c\<lparr>connected := False, stream_closed := True\<rparr>))"
  using assms by (subst close.simps) (simp add: Let_def)

lemma send_message_unkeyed_sent:
  assumes "\<not> truthy_str (key c)" and "send_message E c msg = Some (r, c')"
  shows "key c' = key c \<and> username c' = username c \<and> task_name c' = task_name c
         \<and> (sent c' = sent c
              \<or> (\<exists>frame. pack_message msg = Inr frame \<and> sent c' = sent c @ [frame]))"
  using assms(2)
  apply (subst (asm) send_message.simps)
  apply (simp add: close_unkeyed assms(1) split: if_splits option.splits sum.splits outcome.splits prod.splits)
  apply auto
  done

lemma send_message_unkeyed_sends:
  assumes "\<not> truthy_str (key c)" and "send_message E c msg = Some (r, c')"
    and "connected c" and "\<not> stream_closed c" and "pack_message msg = Inr frame"
    and "fromstring E msg = Inl XMLSyntaxError \<or> (\<exists>x. fromstring E msg = Inr x)"
  shows "sent c' = sent c @ [frame]"
  using assms(2-)
  apply (subst (asm) send_message.simps)
  apply (simp add: close_unkeyed assms(1) split: if_splits option.splits sum.splits outcome.splits prod.splits)
  apply auto
  done

lemma send_message_timeout_unkeyed:
  assumes "\<not> truthy_str (key c)" and "connected c" and "\<not> stream_closed c"
    and "pack_message msg = Inr frame"
    and "fromstring E msg = Inl XMLSyntaxError \<or> (\<exists>x. fromstring E msg = Inr x)"
    and "receive (stream c) = Some (TimedOut received_length, s')"
  shows "send_message E c msg =
     Some (Inl (FishbowlTimeoutError
                 (if received_length then ''Connection timeout (after length received)''
                  else ''Connection timeout'')),
           c\<lparr>sent := sent c @ [frame], stream := s', connected := False, stream_closed := True\<rparr>)"
  using assms by (subst send_message.simps) (auto simp: close_unkeyed)

text \<open>
  Claim C10. When \<^verbatim>\<open>close\<close> runs with a key held and returns, the key attribute is
  \<^verbatim>\<open>None\<close>, and whatever was sent is the frame of the request built with
  \<^verbatim>\<open>logout=None\<close>, for every key that was held: the key is unset before the request
  is built, so the request does not depend on it. On a connection that is connected and
  open, with a user name, that frame is sent.
\<close>

theorem close_logout_key_is_None:
  assumes "truthy_str (key c)" and "close E c skip_errors = Some (r, c')"
  shows "key c' = None
       \<and> (sent c' = sent c
            \<or> (\<exists>u frame. username c = Some u
                  \<and> pack_message (Login E u [] None (task_name c)) = Inr frame
                  \<and> sent c' = sent c @ [frame]))
       \<and> (\<forall>u frame. connected c \<and> \<not> stream_closed c \<and> username c = Some u
              \<and> pack_message (Login E u [] None (task_name c)) = Inr frame
              \<and> (fromstring E (Login E u [] None (task_name c)) = Inl XMLSyntaxError
                   \<or> (\<exists>x. fromstring E (Login E u [] None (task_name c)) = Inr x))
            \<longrightarrow> sent c' = sent c @ [frame])"
proof (cases "username c")
  case None
  with assms show ?thesis
    by (subst (asm) close.simps) (auto simp: Let_def split: if_splits)
next
  case (Some u)
  have nk: "\<not> truthy_str (key (c\<lparr>key := None\<rparr>))" by (simp add: truthy_str_def)
  from assms Some obtain r1 c1 where
    sm: "send_message E (c\<lparr>key := None\<rparr>) (Login E u [] None (task_name c)) = Some (r1, c1)"
    and c': "sent c' = sent c1 \<and> key c' = key c1"
    by (subst (asm) close.simps)
       (auto simp: Let_def split: if_splits option.splits sum.splits prod.splits)
  from send_message_unkeyed_sent[OF nk sm] c' Some
  have 1: "key c' = None" and 2: "sent c' = sent c
            \<or> (\<exists>u frame. username c = Some u
                  \<and> pack_message (Login E u [] None (task_name c)) = Inr frame
                  \<and> sent c' = sent c @ [frame])"
    by auto
  have 3: "sent c' = sent c @ [frame]"
    if "connected c \<and> \<not> stream_closed c \<and> username c = Some u'
              \<and> pack_message (Login E u' [] None (task_name c)) = Inr frame
              \<and> (fromstring E (Login E u' [] None (task_name c)) = Inl XMLSyntaxError
                   \<or> (\<exists>x. fromstring E (Login E u' [] None (task_name c)) = Inr x))"
    for u' frame
  proof -
    from that Some have u': "u' = u" by simp
    from send_message_unkeyed_sends[OF nk sm, of frame] that c' show ?thesis
      unfolding u' by simp
  qed
  from 1 2 3 show ?thesis by blast
qed

text \<open>
  C10 at a connection holding the key \<^verbatim>\<open>abc\<close>, with a request builder that answers
  \<^verbatim>\<open>b"\x01"\<close> for \<^verbatim>\<open>logout=None\<close> and \<^verbatim>\<open>b"\x02"\<close> for a key: the frame sent
  carries \<^verbatim>\<open>b"\x01"\<close>.
\<close>

theorem close_logout_key_is_None_witness:
  "sent (snd (the (close
        \<lparr>get_status = (\<lambda>code. ''unknown''),
          Login = (\<lambda>u p k t. case k of None \<Rightarrow> [1] | Some _ \<Rightarrow> [2]),
          fromstring = (\<lambda>b. if b = [7]
             then Inr (Element ''FbiXml'' [] None
                        [Element ''FbiMsgsRs'' [(''statusCode'', ''1010'')] None []])
             else Inl XMLSyntaxError)\<rparr>
        \<lparr>connected = True, key = Some ''abc'', username = Some ''admin'', task_name = None,
          stream = [Data [0, 0, 0, 1, 7]], stream_closed = False, sent = []\<rparr> False)))
   = [[0, 0, 0, 1, 1]]"
proof -
  let ?E = "\<lparr>get_status = (\<lambda>code. ''unknown''),
          Login = (\<lambda>u p k t. case k of None \<Rightarrow> [1 :: byte] | Some _ \<Rightarrow> [2]),
          fromstring = (\<lambda>b. if b = [7]
             then Inr (Element ''FbiXml'' [] None
                        [Element ''FbiMsgsRs'' [(''statusCode'', ''1010'')] None []])
             else Inl XMLSyntaxError)\<rparr>"
  let ?c = "\<lparr>connected = True, key = Some ''abc'', username = Some ''admin'', task_name = None,
          stream = [Data [0, 0, 0, 1, 7]], stream_closed = False, sent = []\<rparr>"
  let ?c' = "\<lparr>connected = False, key = None, username = Some ''admin'', task_name = None,
          stream = [], stream_closed = True, sent = [[0, 0, 0, 1, 1 :: byte]]\<rparr>"
  have k: "truthy_str (key ?c)" by (simp add: truthy_str_def)
  have cl: "close ?E ?c False = Some (None, ?c')"
    by (simp add: close.simps send_message.simps receive_def recv_length.simps
          recv_payload.simps pack_message_def struct_pack_L_def truthy_str_def xml_find_def
          check_status_def xml_get_def)
  have h: "connected ?c \<and> \<not> stream_closed ?c \<and> username ?c = Some ''admin''
              \<and> pack_message (Login ?E ''admin'' [] None (task_name ?c)) = Inr [0, 0, 0, 1, 1]
              \<and> (fromstring ?E (Login ?E ''admin'' [] None (task_name ?c)) = Inl XMLSyntaxError
                   \<or> (\<exists>x. fromstring ?E (Login ?E ''admin'' [] None (task_name ?c)) = Inr x))"
    by (simp add: pack_message_def struct_pack_L_def)
  have "sent ?c' = sent ?c @ [[0, 0, 0, 1, 1]]"
    by (rule close_logout_key_is_None[OF k cl, THEN conjunct2, THEN conjunct2, THEN spec,
          THEN spec, THEN mp, OF h])
  then have "sent (snd (the (close ?E ?c False))) = sent ?c @ [[0, 0, 0, 1, 1]]"
    unfolding cl by simp
  then show ?thesis by simp
qed

text \<open>
  Claim C7 fails on the code. A connection holds a key; the first read of
  \<^verbatim>\<open>send_message\<close> times out, so the handler calls \<^verbatim>\<open>close(skip_errors=True)\<close>, which
  sends the logout request and reads its response: the header announces one byte and
  the peer closes the stream, so \<^verbatim>\<open>ord(b'')\<close> raises \<^verbatim>\<open>TypeError\<close> inside
  \<^verbatim>\<open>close\<close>, whose \<^verbatim>\<open>except Exception\<close> swallows it before
  \<^verbatim>\<open>self._connected = False\<close> and \<^verbatim>\<open>self.stream.close()\<close> have run. The timeout
  error is then raised on a connection that is still connected, with its socket open.
  (Without a key, and when the logout exchange itself times out, the connection is
  closed: \<open>send_message_timeout_unkeyed\<close>.)
\<close>

theorem send_message_timeout_leaves_open:
  "send_message \<lparr>get_status = (\<lambda>code. ''unknown''),
          Login = (\<lambda>u p k t. [2]),
          fromstring = (\<lambda>b. Inl XMLSyntaxError)\<rparr>
        \<lparr>connected = True, key = Some ''abc'', username = Some ''admin'', task_name = None,
          stream = [TimesOut, Data [0, 0, 0, 1]], stream_closed = False, sent = []\<rparr> [1]
   = Some (Inl (FishbowlTimeoutError ''Connection timeout''),
        \<lparr>connected = True, key = None, username = Some ''admin'', task_name = None,
          stream = [], stream_closed = False, sent = [[0, 0, 0, 1, 1], [0, 0, 0, 1, 2]]\<rparr>)"
  by (simp add: close.simps send_message.simps receive_def recv_length.simps recv_payload.simps
        pack_message_def struct_pack_L_def truthy_str_def)

section \<open>Properties of dictionaries and of the case-insensitive lookup\<close>

lemma map_of_dict_set: "map_of (dict_set d k v) k' = (if k' = k then Some v else map_of d k')"
  by (induction d) auto

lemma has_key_dict_set: "has_key (dict_set d k v) k' \<longleftrightarrow> k' = k \<or> has_key d k'"
  by (simp add: has_key_def map_of_dict_set)

lemma map_of_dict_remove: "map_of (dict_remove d k) k' = (if k' = k then None else map_of d k')"
  by (induction d) (auto simp: dict_remove_def)

lemma has_key_dict_remove: "has_key (dict_remove d k) k' \<longleftrightarrow> k' \<noteq> k \<and> has_key d k'"
  by (simp add: has_key_def map_of_dict_remove)

lemma dict_remove_absent: "\<not> has_key d k \<Longrightarrow> dict_remove d k = d"
  by (induction d) (auto simp: dict_remove_def has_key_def split: if_splits)

lemma dict_remove_dict_set: "\<not> has_key d k \<Longrightarrow> dict_remove (dict_set d k v) k = d"
  by (induction d) (auto simp: dict_remove_def has_key_def split: if_splits)



lemma has_key_empty [simp]: "\<not> has_key [] k"
  by (simp add: has_key_def)




section \<open>Properties of the loops of the object mapper\<close>

lemma fields_loop_append:
  "fields_loop reg self custom d dm (xs @ ys) out =
     (case fields_loop reg self custom d dm xs out of
        Inl e \<Rightarrow> Inl e
      | Inr out' \<Rightarrow> fields_loop reg self custom d dm ys out')"
proof (induction xs arbitrary: out)
  case Nil
  show ?case by simp
next
  case (Cons x xs)
  obtain f p where x: "x = (f, p)" by (cases x)
  show ?case unfolding x
    by (simp add: Cons.IH split: sum.splits option.splits)
qed

lemma fields_loop_keys:
  "fields_loop reg self custom d dm items out = Inr out' \<Longrightarrow> has_key out' k
   \<Longrightarrow> has_key out k \<or> k \<in> fst ` set items"
proof (induction items arbitrary: out)
  case Nil
  then show ?case by simp
next
  case (Cons x xs)
  obtain f p where x: "x = (f, p)" by (cases x)
  show ?case
  proof (cases "field_value reg self custom d dm f p")
    case (Inl e)
    with Cons.prems show ?thesis by (simp add: x)
  next
    case (Inr r)
    show ?thesis
    proof (cases r)
      case None
      with Inr Cons.prems have "fields_loop reg self custom d dm xs out = Inr out'"
        by (simp add: x)
      from Cons.IH[OF this Cons.prems(2)] show ?thesis by auto
    next
      case (Some v)
      with Inr Cons.prems
      have "fields_loop reg self custom d dm xs (dict_set out f v) = Inr out'"
        by (simp add: x)
      from Cons.IH[OF this Cons.prems(2)] show ?thesis by (auto simp: x has_key_dict_set)
    qed
  qed
qed

lemma field_value_failing:
  assumes "data_get d dm f \<noteq> VNone" and "p (data_get d dm f) = Inl e"
  shows "field_value reg self custom d dm f (PFun p) = Inr None"
  using assms by (simp add: field_value.simps)

lemma fields_loop_skip_failing:
  assumes "data_get d dm f \<noteq> VNone" and "p (data_get d dm f) = Inl e"
  shows "fields_loop reg self custom d dm (xs @ (f, PFun p) # ys) out =
         fields_loop reg self custom d dm (xs @ ys) out"
  using field_value_failing[of d dm f p e reg self custom] assms
  by (simp add: fields_loop_append split: sum.splits)

lemma has_key_rename_id:
  "has_key (rename_id self out) k \<Longrightarrow> has_key out k \<or> cls_id_field self = Some k"
  by (auto simp: rename_id_def Let_def has_key_dict_set has_key_dict_remove
      split: option.splits if_splits)




text \<open>The definitions that evaluate the mapper on concrete data.\<close>

lemmas eval_simps =
  parse_fields.simps field_value.simps construct.simps data_get_def dict_of_def dict_update_def
  dict_remove_def has_key_def lower_def lower_char_def truthy_str_def rename_id_def
  int_of_str_def int_magnitude_def is_digit_def digit_val_def int_space_def
  first_item_def as_list_def items_of_def class_dict_def

lemma has_key_iff: "has_key d k \<longleftrightarrow> k \<in> fst ` set d"
  by (simp add: has_key_def map_of_eq_None_iff)

lemma parse_fields_unfold:
  assumes "data \<noteq> VNone" and "get_data_of_value data = Inr d"
  shows "parse_fields reg self custom data (Some flds) =
     (case fields_loop reg self custom d (dict_of (map (\<lambda>(k, v). (lower k, k)) d))
             (if truthy_str (cls_id_field self) \<and> \<not> has_key flds ''ID''
              then flds @ [(''ID'', PFun py_int)] else flds) [] of
        Inl e \<Rightarrow> Inl e
      | Inr out \<Rightarrow> Inr (rename_id self out))"
  using assms by (subst parse_fields.simps) (simp add: Let_def)

lemma parse_fields_fields_arg:
  "parse_fields reg self custom data None =
   parse_fields reg self custom data
     (Some (case custom of None \<Rightarrow> cls_fields self
            | Some cf \<Rightarrow> if cf = [] then cls_fields self else dict_update (cls_fields self) cf))"
  by (simp add: parse_fields.simps[of reg self custom data None]
      parse_fields.simps[of reg self custom data "Some f" for f])

lemma field_value_ID:
  "field_value reg self custom d dm ''ID'' (PFun py_int) =
     Inr (if data_get d dm ''ID'' = VNone then None
          else case py_int (data_get d dm ''ID'') of Inl e \<Rightarrow> None | Inr i \<Rightarrow> Some i)"
  by (simp add: field_value.simps Let_def split: sum.splits)

lemma rename_id_result:
  assumes idf: "cls_id_field self = Some idf" "idf \<noteq> []"
    and noID: "\<not> has_key out_decl ''ID''"
  shows "rename_id self (case id_value of None \<Rightarrow> out_decl | Some i \<Rightarrow> dict_set out_decl ''ID'' i) =
     (if has_key out_decl idf \<or> idf = ''ID''
      then (case id_value of None \<Rightarrow> out_decl | Some i \<Rightarrow> dict_set out_decl ''ID'' i)
      else (case id_value of
              None \<Rightarrow> out_decl
            | Some i \<Rightarrow> if truthy i then dict_set out_decl idf i else out_decl))"
proof (cases id_value)
  case None
  with idf noID show ?thesis
    by (auto simp: rename_id_def Let_def dict_remove_absent has_key_def)
next
  case (Some i)
  with idf noID show ?thesis
    by (auto simp: rename_id_def Let_def has_key_dict_set dict_remove_dict_set map_of_dict_set)
qed

lemma parse_fields_id_synth:
  assumes idf: "cls_id_field self = Some idf" "idf \<noteq> []"
    and noID: "\<not> has_key flds ''ID''"
    and data: "data \<noteq> VNone" "get_data_of_value data = Inr d"
    and loop: "fields_loop reg self custom d (dict_of (map (\<lambda>(k, v). (lower k, k)) d)) flds []
                 = Inr out_decl"
  shows "\<not> has_key out_decl ''ID''"
    and "parse_fields reg self custom data (Some flds) =
      Inr (rename_id self
        (case (if data_get d (dict_of (map (\<lambda>(k, v). (lower k, k)) d)) ''ID'' = VNone then None
               else case py_int (data_get d (dict_of (map (\<lambda>(k, v). (lower k, k)) d)) ''ID'') of
                      Inl e \<Rightarrow> None | Inr i \<Rightarrow> Some i) of
           None \<Rightarrow> out_decl
         | Some i \<Rightarrow> dict_set out_decl ''ID'' i))"
proof -
  show no: "\<not> has_key out_decl ''ID''"
    using fields_loop_keys[OF loop, of "''ID''"] noID by (auto simp: has_key_iff)
  have t: "truthy_str (cls_id_field self)" using idf by (simp add: truthy_str_def)
  show "parse_fields reg self custom data (Some flds) =
      Inr (rename_id self
        (case (if data_get d (dict_of (map (\<lambda>(k, v). (lower k, k)) d)) ''ID'' = VNone then None
               else case py_int (data_get d (dict_of (map (\<lambda>(k, v). (lower k, k)) d)) ''ID'') of
                      Inl e \<Rightarrow> None | Inr i \<Rightarrow> Some i) of
           None \<Rightarrow> out_decl
         | Some i \<Rightarrow> dict_set out_decl ''ID'' i))"
    unfolding parse_fields_unfold[OF data]
    using t noID loop
    by (simp add: fields_loop_append field_value_ID split: sum.splits)
qed

section \<open>Properties of the object mapper\<close>




text \<open>
  Claim C3, as the code has it. For a class with an \<^verbatim>\<open>id_field\<close> whose fields have no
  entry \<^verbatim>\<open>"ID"\<close>, \<^verbatim>\<open>parse_fields\<close> resolves, after the declared fields (result
  \<open>out_decl\<close>), one more field \<^verbatim>\<open>"ID"\<close> with the parser \<^verbatim>\<open>int\<close>. Then, when the
  \<^verbatim>\<open>id_field\<close> name is not a key of the result yet (and is not \<^verbatim>\<open>"ID"\<close> itself), the
  entry \<^verbatim>\<open>"ID"\<close> is removed and its value is stored under the \<^verbatim>\<open>id_field\<close> name if it
  is true; no value, or a false one, stores nothing. When the \<^verbatim>\<open>id_field\<close> name is a
  key of the result already, nothing is renamed and the entry \<^verbatim>\<open>"ID"\<close> stays. In
  particular, with \<^verbatim>\<open>id_field = "PartID"\<close> not resolved from the source and a source
  whose \<^verbatim>\<open>id\<close> is \<^verbatim>\<open>"7"\<close>, the result maps \<^verbatim>\<open>PartID\<close> to 7 and has no key \<^verbatim>\<open>ID\<close>.
\<close>

theorem id_field_rename:
  assumes idf: "cls_id_field self = Some idf" "idf \<noteq> []"
    and flds: "flds = (case fields_arg of Some f \<Rightarrow> f
                       | None \<Rightarrow> (case custom of None \<Rightarrow> cls_fields self
                                   | Some cf \<Rightarrow> if cf = [] then cls_fields self
                                                else dict_update (cls_fields self) cf))"
    and noID: "\<not> has_key flds ''ID''"
    and data: "data \<noteq> VNone" "get_data_of_value data = Inr d"
    and dm: "dm = dict_of (map (\<lambda>(k, v). (lower k, k)) d)"
    and loop: "fields_loop reg self custom d dm flds [] = Inr out_decl"
    and idv: "id_value = (if data_get d dm ''ID'' = VNone then None
                          else case py_int (data_get d dm ''ID'') of
                                 Inl e \<Rightarrow> None | Inr i \<Rightarrow> Some i)"
  shows "fields_loop reg self custom d dm (flds @ [(''ID'', PFun py_int)]) [] =
           Inr (case id_value of None \<Rightarrow> out_decl | Some i \<Rightarrow> dict_set out_decl ''ID'' i)
       \<and> parse_fields reg self custom data fields_arg =
           Inr (if has_key out_decl idf \<or> idf = ''ID''
                then (case id_value of None \<Rightarrow> out_decl | Some i \<Rightarrow> dict_set out_decl ''ID'' i)
                else (case id_value of
                        None \<Rightarrow> out_decl
                      | Some i \<Rightarrow> if truthy i then dict_set out_decl idf i else out_decl))
       \<and> \<not> has_key out_decl ''ID''
       \<and> (idf = ''PartID'' \<and> \<not> has_key out_decl ''PartID'' \<and> data_get d dm ''ID'' = VStr ''7''
            \<longrightarrow> (\<exists>m. parse_fields reg self custom data fields_arg = Inr m
                      \<and> map_of m ''PartID'' = Some (VInt 7) \<and> \<not> has_key m ''ID''))"
proof -
  have pf: "parse_fields reg self custom data fields_arg
            = parse_fields reg self custom data (Some flds)"
    using parse_fields_fields_arg[of reg self custom data] flds
    by (cases fields_arg) simp_all
  note synth = parse_fields_id_synth[OF idf noID data loop[unfolded dm]]
  have no: "\<not> has_key out_decl ''ID''" by (rule synth(1))
  have l: "fields_loop reg self custom d dm (flds @ [(''ID'', PFun py_int)]) [] =
           Inr (case id_value of None \<Rightarrow> out_decl | Some i \<Rightarrow> dict_set out_decl ''ID'' i)"
    using loop by (simp add: fields_loop_append field_value_ID idv split: sum.splits)
  have r: "parse_fields reg self custom data fields_arg =
           Inr (if has_key out_decl idf \<or> idf = ''ID''
                then (case id_value of None \<Rightarrow> out_decl | Some i \<Rightarrow> dict_set out_decl ''ID'' i)
                else (case id_value of
                        None \<Rightarrow> out_decl
                      | Some i \<Rightarrow> if truthy i then dict_set out_decl idf i else out_decl))"
    unfolding pf synth(2) dm[symmetric] idv[symmetric]
    by (simp only: rename_id_result[OF idf no])
  have "idf = ''PartID'' \<and> \<not> has_key out_decl ''PartID'' \<and> data_get d dm ''ID'' = VStr ''7''
            \<longrightarrow> (\<exists>m. parse_fields reg self custom data fields_arg = Inr m
                      \<and> map_of m ''PartID'' = Some (VInt 7) \<and> \<not> has_key m ''ID'')"
  proof (intro impI, elim conjE)
    assume a: "idf = ''PartID''" "\<not> has_key out_decl ''PartID''" "data_get d dm ''ID'' = VStr ''7''"
    then have "id_value = Some (VInt 7)"
      by (simp add: idv int_of_str_def int_magnitude_def is_digit_def digit_val_def int_space_def)
    with a r no show "\<exists>m. parse_fields reg self custom data fields_arg = Inr m
                      \<and> map_of m ''PartID'' = Some (VInt 7) \<and> \<not> has_key m ''ID''"
      by (simp add: map_of_dict_set has_key_dict_set)
  qed
  with l r no show ?thesis by blast
qed

text \<open>C3 at the class \<^verbatim>\<open>Part\<close> (\<^verbatim>\<open>id_field = "PartID"\<close>) and a row with \<^verbatim>\<open>id\<close> and \<^verbatim>\<open>num\<close>.\<close>

theorem id_field_rename_witness:
  "parse_fields [] (FbClass ''Part'' (Some ''PartID'') [(''PartID'', PFun py_int), (''Num'', PNone)])
     None (VDict [(''id'', VStr ''7''), (''num'', VStr ''X'')]) None
   = Inr [(''Num'', VStr ''X''), (''PartID'', VInt 7)]"
proof -
  let ?cls = "FbClass ''Part'' (Some ''PartID'') [(''PartID'', PFun py_int), (''Num'', PNone)]"
  let ?d = "[(''id'', VStr ''7''), (''num'', VStr ''X'')]"
  have "parse_fields [] ?cls None (VDict ?d) None =
           Inr (if has_key [(''Num'', VStr ''X'')] ''PartID'' \<or> ''PartID'' = ''ID''
                then (case Some (VInt 7) of None \<Rightarrow> [(''Num'', VStr ''X'')]
                      | Some i \<Rightarrow> dict_set [(''Num'', VStr ''X'')] ''ID'' i)
                else (case Some (VInt 7) of
                        None \<Rightarrow> [(''Num'', VStr ''X'')]
                      | Some i \<Rightarrow> if truthy i then dict_set [(''Num'', VStr ''X'')] ''PartID'' i
                                  else [(''Num'', VStr ''X'')]))"
    by (rule id_field_rename[where self = ?cls and idf = "''PartID''" and fields_arg = None
          and custom = None and data = "VDict ?d" and d = ?d
          and flds = "[(''PartID'', PFun py_int), (''Num'', PNone)]"
          and dm = "dict_of (map (\<lambda>(k, v). (lower k, k)) ?d)"
          and out_decl = "[(''Num'', VStr ''X'')]" and id_value = "Some (VInt 7)", THEN conjunct2,
          THEN conjunct1])
       (simp_all add: eval_simps)
  then show ?thesis by (simp add: has_key_def)
qed

text \<open>
  Claim C3 as stated removes the entry \<^verbatim>\<open>"ID"\<close> and reinserts every value that was
  produced. A row with both \<^verbatim>\<open>PartID\<close> and \<^verbatim>\<open>id\<close> keeps the entry \<^verbatim>\<open>"ID"\<close>; a row
  whose \<^verbatim>\<open>id\<close> is \<^verbatim>\<open>"0"\<close> produces the value 0, which is not reinserted.
\<close>

theorem id_entry_not_always_renamed:
  "parse_fields [] (FbClass ''Part'' (Some ''PartID'') [(''PartID'', PFun py_int), (''Num'', PNone)])
     None (VDict [(''PartID'', VStr ''5''), (''id'', VStr ''7'')]) None
     = Inr [(''PartID'', VInt 5), (''ID'', VInt 7)]
   \<and> parse_fields [] (FbClass ''Part'' (Some ''PartID'') [(''PartID'', PFun py_int), (''Num'', PNone)])
     None (VDict [(''id'', VStr ''0''), (''num'', VStr ''X'')]) None
     = Inr [(''Num'', VStr ''X'')]"
  by (simp add: eval_simps)



text \<open>
  Claim C5, as the code has it. When the scalar parser of a field raises on the field's
  source value, the iteration ends with \<^verbatim>\<open>continue\<close>: no exception propagates and no
  value is stored for the field, and the loop gives what it gives without that field, so
  every sibling resolves as it would have. For a field other than a literal \<^verbatim>\<open>"ID"\<close>
  of a class with an \<^verbatim>\<open>id_field\<close>, \<^verbatim>\<open>parse_fields\<close> returns what it returns for the
  fields without that field; the field's name is then not a key of the result, unless it
  is the \<^verbatim>\<open>id_field\<close> name, which may still receive the renamed \<^verbatim>\<open>"ID"\<close> value.
\<close>

theorem failing_scalar_field_skipped:
  assumes data: "data \<noteq> VNone" "get_data_of_value data = Inr d"
    and dm: "dm = dict_of (map (\<lambda>(k, v). (lower k, k)) d)"
    and present: "data_get d dm f \<noteq> VNone"
    and raises: "p (data_get d dm f) = Inl e"
  shows "field_value reg self custom d dm f (PFun p) = Inr None
       \<and> fields_loop reg self custom d dm (xs @ (f, PFun p) # ys) out
           = fields_loop reg self custom d dm (xs @ ys) out
       \<and> (f \<noteq> ''ID'' \<or> \<not> truthy_str (cls_id_field self)
            \<longrightarrow> parse_fields reg self custom data (Some (xs @ (f, PFun p) # ys))
                = parse_fields reg self custom data (Some (xs @ ys)))
       \<and> ((f \<noteq> ''ID'' \<or> \<not> truthy_str (cls_id_field self)) \<and> f \<notin> fst ` set (xs @ ys)
              \<and> cls_id_field self \<noteq> Some f
            \<longrightarrow> (\<forall>m. parse_fields reg self custom data (Some (xs @ (f, PFun p) # ys)) = Inr m
                      \<longrightarrow> \<not> has_key m f))"
proof (intro conjI impI allI)
  show "field_value reg self custom d dm f (PFun p) = Inr None"
    using present raises by (simp add: field_value.simps)
  show "fields_loop reg self custom d dm (xs @ (f, PFun p) # ys) out
           = fields_loop reg self custom d dm (xs @ ys) out"
    by (rule fields_loop_skip_failing[of d dm f p e, OF present raises])
next
  assume a: "f \<noteq> ''ID'' \<or> \<not> truthy_str (cls_id_field self)"
  have hk: "has_key (xs @ (f, PFun p) # ys) ''ID'' \<longleftrightarrow> f = ''ID'' \<or> has_key (xs @ ys) ''ID''"
    by (auto simp: has_key_iff)
  show "parse_fields reg self custom data (Some (xs @ (f, PFun p) # ys))
                = parse_fields reg self custom data (Some (xs @ ys))"
    unfolding parse_fields_unfold[OF data] dm[symmetric]
    using a fields_loop_skip_failing[of d dm f p e reg self custom xs ys "[]", OF present raises]
      fields_loop_skip_failing[of d dm f p e reg self custom xs
        "ys @ [(''ID'', PFun py_int)]" "[]", OF present raises]
    by (auto simp: hk)
next
  fix m
  assume a: "(f \<noteq> ''ID'' \<or> \<not> truthy_str (cls_id_field self)) \<and> f \<notin> fst ` set (xs @ ys)
              \<and> cls_id_field self \<noteq> Some f"
    and m: "parse_fields reg self custom data (Some (xs @ (f, PFun p) # ys)) = Inr m"
  have hk: "has_key (xs @ (f, PFun p) # ys) ''ID'' \<longleftrightarrow> f = ''ID'' \<or> has_key (xs @ ys) ''ID''"
    by (auto simp: has_key_iff)
  let ?items = "if truthy_str (cls_id_field self) \<and> \<not> has_key (xs @ (f, PFun p) # ys) ''ID''
                then (xs @ (f, PFun p) # ys) @ [(''ID'', PFun py_int)] else xs @ (f, PFun p) # ys"
  let ?items' = "if truthy_str (cls_id_field self) \<and> \<not> has_key (xs @ (f, PFun p) # ys) ''ID''
                then (xs @ ys) @ [(''ID'', PFun py_int)] else xs @ ys"
  from m obtain out' where l: "fields_loop reg self custom d dm ?items [] = Inr out'"
    and r: "m = rename_id self out'"
    unfolding parse_fields_unfold[OF data] dm[symmetric] by (auto split: sum.splits)
  have "fields_loop reg self custom d dm ?items [] = fields_loop reg self custom d dm ?items' []"
    using fields_loop_skip_failing[of d dm f p e reg self custom xs ys "[]", OF present raises]
      fields_loop_skip_failing[of d dm f p e reg self custom xs
        "ys @ [(''ID'', PFun py_int)]" "[]", OF present raises]
    by auto
  with l have l': "fields_loop reg self custom d dm ?items' [] = Inr out'" by simp
  have "\<not> has_key out' f"
  proof
    assume "has_key out' f"
    from fields_loop_keys[OF l' this] have "f \<in> fst ` set ?items'" by simp
    with a show False by (auto split: if_splits)
  qed
  with a r show "\<not> has_key m f"
    using has_key_rename_id[of self out' f] by auto
qed

text \<open>C5 at the fields \<^verbatim>\<open>{"ID": int, "Name": None}\<close> and a row whose \<^verbatim>\<open>id\<close> is not a number.\<close>

theorem failing_scalar_field_skipped_witness:
  "parse_fields [] (FbClass ''Widget'' None []) None
     (VDict [(''id'', VStr ''garbage''), (''name'', VStr ''Widget'')])
     (Some ([] @ (''ID'', PFun py_int) # [(''Name'', PNone)]))
   = parse_fields [] (FbClass ''Widget'' None []) None
     (VDict [(''id'', VStr ''garbage''), (''name'', VStr ''Widget'')])
     (Some ([] @ [(''Name'', PNone)]))
   \<and> parse_fields [] (FbClass ''Widget'' None []) None
     (VDict [(''id'', VStr ''garbage''), (''name'', VStr ''Widget'')])
     (Some ([] @ [(''Name'', PNone)]))
   = Inr [(''Name'', VStr ''Widget'')]"
proof -
  let ?d = "[(''id'', VStr ''garbage''), (''name'', VStr ''Widget'')]"
  let ?dm = "dict_of (map (\<lambda>(k, v). (lower k, k)) ?d)"
  let ?cls = "FbClass ''Widget'' None []"
  have data: "VDict ?d \<noteq> VNone" "get_data_of_value (VDict ?d) = Inr ?d" by simp_all
  have present: "data_get ?d ?dm ''ID'' \<noteq> VNone" by (simp add: eval_simps)
  have raises: "py_int (data_get ?d ?dm ''ID'') = Inl ValueError" by (simp add: eval_simps)
  have plain: "''ID'' \<noteq> ''ID'' \<or> \<not> truthy_str (cls_id_field ?cls)"
    by (simp add: truthy_str_def)
  have 1: "parse_fields [] ?cls None (VDict ?d) (Some ([] @ (''ID'', PFun py_int) # [(''Name'', PNone)]))
      = parse_fields [] ?cls None (VDict ?d) (Some ([] @ [(''Name'', PNone)]))"
    by (rule failing_scalar_field_skipped[of "VDict ?d" ?d ?dm "''ID''" py_int ValueError,
          OF data refl present raises, THEN conjunct2, THEN conjunct2, THEN conjunct1, THEN mp,
          OF plain])
  have 2: "parse_fields [] ?cls None (VDict ?d) (Some ([] @ [(''Name'', PNone)]))
      = Inr [(''Name'', VStr ''Widget'')]"
    by (simp add: eval_simps)
  from 1 2 show ?thesis by (rule conjI)
qed

text \<open>
  Claim C5 as stated omits the field from the resolved mapping. For the class \<^verbatim>\<open>Part\<close>
  the parser of \<^verbatim>\<open>PartID\<close> raises on \<^verbatim>\<open>"x"\<close>, and the result still has the key
  \<^verbatim>\<open>PartID\<close>: it receives the value of the row's \<^verbatim>\<open>id\<close> in the rename step.
\<close>

theorem failing_id_field_still_present:
  "py_int (VStr ''x'') = Inl ValueError
   \<and> parse_fields [] (FbClass ''Part'' (Some ''PartID'') [(''PartID'', PFun py_int), (''Num'', PNone)])
     None (VDict [(''PartID'', VStr ''x''), (''id'', VStr ''7'')]) None
     = Inr [(''PartID'', VInt 7)]"
  by (simp add: eval_simps)



section \<open>Properties of lazy objects\<close>

text \<open>Once \<^verbatim>\<open>_mapped\<close> is set, an access returns it and leaves the world as it is.\<close>

lemma mapped_cached:
  "mapped_attr self = Some m \<Longrightarrow> mapped reg self w = (Inr m, self, w)"
  by (simp add: mapped_def)

lemma getitem_cached:
  "mapped_attr self = Some m \<Longrightarrow>
   getitem reg self k w =
     (case map_of m k of None \<Rightarrow> Inl KeyError | Some v \<Rightarrow> Inr v, self, w)"
  by (simp add: getitem_def mapped_cached split: option.splits)

lemma getitems_cached:
  "mapped_attr self = Some m \<Longrightarrow>
   getitems reg self ks w =
     (map (\<lambda>k. case map_of m k of None \<Rightarrow> Inl KeyError | Some v \<Rightarrow> Inr v) ks, self, w)"
  by (induction ks) (simp_all add: getitem_cached)

text \<open>
  Claim C8, as the code has it. For a lazy object whose loader returns data that
  \<^verbatim>\<open>parse_fields\<close> resolves, the first access invokes the loader once and caches the
  mapping; every later access returns the cached mapping without invoking the loader.
  So under any sequence of one or more accesses a counting loader is invoked exactly once;
  in particular when a field is accessed twice.
\<close>

theorem lazy_mapped_memoized:
  assumes unset: "mapped_attr self = None"
    and lazy: "lazy_load self = Some (counting load)"
    and loads: "load w = (Inr data, w')"
    and parses: "parse_fields_data reg (obj_class self) (custom_fields self) data = Inr m"
  shows "mapped reg self (n, w) = (Inr m, self\<lparr>mapped_attr := Some m\<rparr>, (Suc n, w'))
       \<and> (\<forall>c. mapped reg (self\<lparr>mapped_attr := Some m\<rparr>) c
                = (Inr m, self\<lparr>mapped_attr := Some m\<rparr>, c))
       \<and> (\<forall>k ks. getitems reg self (k # ks) (n, w) =
            (map (\<lambda>k. case map_of m k of None \<Rightarrow> Inl KeyError | Some v \<Rightarrow> Inr v) (k # ks),
             self\<lparr>mapped_attr := Some m\<rparr>, (Suc n, w')))"
proof (intro conjI allI)
  show first: "mapped reg self (n, w) = (Inr m, self\<lparr>mapped_attr := Some m\<rparr>, (Suc n, w'))"
    using assms by (simp add: mapped_def counting_def)
  show "mapped reg (self\<lparr>mapped_attr := Some m\<rparr>) c = (Inr m, self\<lparr>mapped_attr := Some m\<rparr>, c)"
    for c by (simp add: mapped_cached)
  show "getitems reg self (k # ks) (n, w) =
            (map (\<lambda>k. case map_of m k of None \<Rightarrow> Inl KeyError | Some v \<Rightarrow> Inr v) (k # ks),
             self\<lparr>mapped_attr := Some m\<rparr>, (Suc n, w'))" for k ks
    using getitems_cached[of "self\<lparr>mapped_attr := Some m\<rparr>" m reg ks "(Suc n, w')"]
    by (simp add: getitem_def first split: option.splits)
qed

text \<open>C8 at a product whose loader returns a row, with the field \<^verbatim>\<open>Num\<close> read twice.\<close>

theorem lazy_mapped_memoized_witness:
  "getitems []
     \<lparr>obj_class = FbClass ''Product'' None [(''Num'', PNone)], obj_name = None,
       custom_fields = None,
       lazy_load = Some (counting (\<lambda>w. (Inr (Plain (VDict [(''num'', VStr ''B201'')])), w))),
       mapped_attr = None\<rparr>
     [''Num'', ''Num''] (0, ())
   = ([Inr (VStr ''B201''), Inr (VStr ''B201'')],
      \<lparr>obj_class = FbClass ''Product'' None [(''Num'', PNone)], obj_name = None,
       custom_fields = None,
       lazy_load = Some (counting (\<lambda>w. (Inr (Plain (VDict [(''num'', VStr ''B201'')])), w))),
       mapped_attr = Some [(''Num'', VStr ''B201'')]\<rparr>,
      (1, ()))"
proof -
  let ?load = "\<lambda>w :: unit. (Inr (Plain (VDict [(''num'', VStr ''B201'')])) :: exn + source, w)"
  let ?self = "\<lparr>obj_class = FbClass ''Product'' None [(''Num'', PNone)], obj_name = None,
       custom_fields = None, lazy_load = Some (counting ?load), mapped_attr = None\<rparr>"
  have p: "parse_fields_data [] (obj_class ?self) (custom_fields ?self)
             (Plain (VDict [(''num'', VStr ''B201'')])) = Inr [(''Num'', VStr ''B201'')]"
    by (simp add: parse_fields_data_def parse_fields.simps field_value.simps data_get_def
          dict_of_def has_key_def lower_def lower_char_def truthy_str_def rename_id_def)
  have u: "mapped_attr ?self = None" and l: "lazy_load ?self = Some (counting ?load)"
    and r: "?load () = (Inr (Plain (VDict [(''num'', VStr ''B201'')])), ())"
    by simp_all
  from lazy_mapped_memoized[OF u l r p, of 0, THEN conjunct2, THEN conjunct2, rule_format,
      of "''Num''" "[''Num'']"]
  show ?thesis by simp
qed

text \<open>
  Claim C8 as stated holds for every lazy object. A loader that raises (a request whose
  response has an unexpected status) leaves \<^verbatim>\<open>_mapped\<close> unset: the second access
  invokes it again, and the count is 2.
\<close>

theorem lazy_loader_invoked_again_after_failure:
  "getitems []
     \<lparr>obj_class = FbClass ''Product'' None [(''Num'', PNone)], obj_name = None,
       custom_fields = None,
       lazy_load = Some (counting (\<lambda>w. (Inl (FishbowlError ''Unexpected response status''), w))),
       mapped_attr = None\<rparr>
     [''Num'', ''Num''] (0, ())
   = ([Inl (FishbowlError ''Unexpected response status''),
       Inl (FishbowlError ''Unexpected response status'')],
      \<lparr>obj_class = FbClass ''Product'' None [(''Num'', PNone)], obj_name = None,
       custom_fields = None,
       lazy_load = Some (counting (\<lambda>w. (Inl (FishbowlError ''Unexpected response status''), w))),
       mapped_attr = None\<rparr>,
      (2, ()))"
  by (simp add: getitem_def mapped_def counting_def)

end
